theory Spec2Isabelle
  imports Complex_Main "HOL-Library.AList"
begin

section \<open>Python values and text helpers\<close>

text \<open>
  Strings are lists of characters, one \<^typ>\<open>char\<close> per code point (code points below 256).
  A float is NaN, an infinity or a finite value; every finite IEEE double is a rational
  number, so \<open>is_integer\<close> and \<open>int\<close> are exact on this representation.
\<close>

datatype pyfloat = NaN | PosInf | NegInf | Finite rat

text \<open>
  A table cell as a row of \<open>iterrows\<close> holds it: \<open>None\<close>, a Python integer (a row of
  mixed types), a \<open>numpy.int64\<close> (a row of a frame whose columns are all integers), a
  float (NaN is the missing-value marker) or text. A \<open>numpy.int64\<close> is not an instance
  of \<open>int\<close>. No arithmetic is done on cells, so the 64-bit range is not written out.
\<close>

datatype cell = CNone | CInt int | CNpInt int | CFloat pyfloat | CStr string

text \<open>
  The float operations of the Python runtime are not part of the repository and are taken
  as parameters: \<open>str(f)\<close> for a float \<open>f\<close>; \<open>float(text)\<close>, which gives \<open>None\<close>
  where Python raises \<open>ValueError\<close>; and \<open>f + n\<close> for a float \<open>f\<close> and an integer
  \<open>n\<close>.
\<close>

record pyenv =
  float_str :: "pyfloat \<Rightarrow> string"
  float_parse :: "string \<Rightarrow> pyfloat option"
  float_add_int :: "pyfloat \<Rightarrow> int \<Rightarrow> pyfloat"

text \<open>The exceptions that the modelled code can raise.\<close>

datatype error = RuntimeError string | TypeError string | KeyError string | ValueError string

text \<open>\<open>float.is_integer()\<close> and \<open>int(f)\<close> (the latter is only called on whole floats).\<close>

fun is_integer :: "pyfloat \<Rightarrow> bool" where
  "is_integer (Finite q) = (frac q = 0)"
| "is_integer _ = False"

fun int_of_float :: "pyfloat \<Rightarrow> int" where
  "int_of_float (Finite q) = (if 0 \<le> q then \<lfloor>q\<rfloor> else \<lceil>q\<rceil>)"
| "int_of_float _ = 0"

text \<open>\<open>str.isspace\<close> on one character: TAB..CR, FS..US, space, NEL and NBSP.\<close>

definition is_space :: "char \<Rightarrow> bool" where
  "is_space c = (let n = (of_char c :: nat) in
     (9 \<le> n \<and> n \<le> 13) \<or> (28 \<le> n \<and> n \<le> 32) \<or> n = 133 \<or> n = 160)"

definition strip :: "string \<Rightarrow> string" where
  "strip s = rev (dropWhile is_space (rev (dropWhile is_space s)))"

text \<open>
  \<open>str.lower\<close> and \<open>str.upper\<close> per character. The three lower-case letters
  below code point 256 whose upper case is not below 256, or is two letters, are left as
  they are.
\<close>

definition lower_char :: "char \<Rightarrow> char" where
  "lower_char c = (let n = (of_char c :: nat) in
     if (65 \<le> n \<and> n \<le> 90) \<or> (192 \<le> n \<and> n \<le> 222 \<and> n \<noteq> 215) then char_of (n + 32) else c)"

definition upper_char :: "char \<Rightarrow> char" where
  "upper_char c = (let n = (of_char c :: nat) in
     if (97 \<le> n \<and> n \<le> 122) \<or> (224 \<le> n \<and> n \<le> 254 \<and> n \<noteq> 247) then char_of (n - 32) else c)"

definition lower :: "string \<Rightarrow> string" where
  "lower s = map lower_char s"

definition upper :: "string \<Rightarrow> string" where
  "upper s = map upper_char s"

text \<open>\<open>sep.join(parts)\<close>.\<close>

fun join :: "string \<Rightarrow> string list \<Rightarrow> string" where
  "join sep [] = []"
| "join sep [x] = x"
| "join sep (x # y # ys) = x @ sep @ join sep (y # ys)"

text \<open>\<open>text.split()\<close>: the maximal runs of non-space characters; \<open>cur\<close> is the run being read.\<close>

fun split_acc :: "string \<Rightarrow> string \<Rightarrow> string list" where
  "split_acc cur [] = (if cur = [] then [] else [cur])"
| "split_acc cur (c # cs) =
     (if is_space c then (if cur = [] then split_acc [] cs else cur # split_acc [] cs)
      else split_acc (cur @ [c]) cs)"

definition split :: "string \<Rightarrow> string list" where
  "split s = split_acc [] s"

definition endswith :: "string \<Rightarrow> string \<Rightarrow> bool" where
  "endswith s suffix = (length suffix \<le> length s \<and> drop (length s - length suffix) s = suffix)"

text \<open>\<open>str(n)\<close> for an integer: decimal digits, with a leading minus sign.\<close>

fun digits :: "nat \<Rightarrow> string" where
  "digits n = (if n < 10 then [''0123456789'' ! n]
     else digits (n div 10) @ [''0123456789'' ! (n mod 10)])"

declare digits.simps [simp del]

definition str_int :: "int \<Rightarrow> string" where
  "str_int i = (if i < 0 then CHR ''-'' # digits (nat (- i)) else digits (nat i))"

fun py_str :: "pyenv \<Rightarrow> cell \<Rightarrow> string" where
  "py_str py CNone = ''None''"
| "py_str py (CInt i) = str_int i"
| "py_str py (CNpInt i) = str_int i"
| "py_str py (CFloat f) = float_str py f"
| "py_str py (CStr s) = s"

text \<open>\<open>pd.isna\<close> on a scalar.\<close>

fun isna :: "cell \<Rightarrow> bool" where
  "isna CNone = True"
| "isna (CFloat NaN) = True"
| "isna _ = False"

text \<open>
  A loop that appends the issues of each element to one list and returns it; an
  exception raised in the body leaves the loop and the function.
\<close>

fun for_each :: "('a \<Rightarrow> error + 'b list) \<Rightarrow> 'a list \<Rightarrow> error + 'b list" where
  "for_each body [] = Inr []"
| "for_each body (x # xs) =
     (case body x of
        Inl e \<Rightarrow> Inl e
      | Inr ys \<Rightarrow> (case for_each body xs of Inl e \<Rightarrow> Inl e | Inr zs \<Rightarrow> Inr (ys @ zs)))"

section \<open>Row helpers (rules/common.py)\<close>

definition EMPTY_LIKE_VALUES :: "string list" where
  "EMPTY_LIKE_VALUES = ['''', ''-'', ''--'', ''n/a'', ''na'', ''none'', ''null'', ''nil'', ''empty'']"

definition is_empty_like :: "pyenv \<Rightarrow> cell \<Rightarrow> bool" where
  "is_empty_like py v =
     (if v = CNone then True
      else if isna v then True
      else let text = strip (py_str py v) in
        if text = '''' then True else lower text \<in> set EMPTY_LIKE_VALUES)"

text \<open>
  The index label of a row, as iterating the index of the frame yields it: a Python
  integer, a float or text. The default index of a loaded file counts the rows from 0; a
  file whose data lines have one field more than the header takes the first field of each
  line as the label, so labels can repeat and need not be numbers.
\<close>

datatype label = LInt int | LFloat pyfloat | LStr string

text \<open>A number that \<open>df_index + 2\<close> can give.\<close>

datatype pynum = NInt int | NFloat pyfloat

text \<open>\<open>df_index + 2\<close>; adding an integer to text raises TypeError.\<close>

fun excel_row_number :: "pyenv \<Rightarrow> label \<Rightarrow> error + pynum" where
  "excel_row_number py (LInt i) = Inr (NInt (i + 2))"
| "excel_row_number py (LFloat f) = Inr (NFloat (float_add_int py f 2))"
| "excel_row_number py (LStr s) =
     Inl (TypeError (''can only concatenate str (not '' @ [CHR 0x22] @ ''int'' @ [CHR 0x22]
                       @ '') to str''))"

text \<open>A row maps column names to cells; \<open>row.get(key, default)\<close>.\<close>

type_synonym row = "(string \<times> cell) list"

definition row_get :: "row \<Rightarrow> string \<Rightarrow> cell \<Rightarrow> cell" where
  "row_get r k d = (case map_of r k of Some v \<Rightarrow> v | None \<Rightarrow> d)"

definition is_blank_row :: "pyenv \<Rightarrow> row \<Rightarrow> bool" where
  "is_blank_row py r =
     (let candidates =
        [row_get r ''Test Case ID'' (CStr ''''),
         row_get r ''Step #'' (CStr ''''),
         row_get r ''Action'' (CStr ''''),
         row_get r ''Input Data'' (CStr ''''),
         row_get r ''Data'' (CStr ''''),
         row_get r ''Expected Results'' (CStr '''')]
      in list_all (is_empty_like py) candidates)"

text \<open>
  The \<open>isinstance(value, int)\<close> test holds of a Python integer only; a
  \<open>numpy.int64\<close> goes through its text and \<open>float\<close>, as text does.
\<close>

definition to_int_step :: "pyenv \<Rightarrow> cell \<Rightarrow> int option" where
  "to_int_step py v =
     (if is_empty_like py v then None
      else case v of
        CInt i \<Rightarrow> Some i
      | CFloat f \<Rightarrow> (if is_integer f then Some (int_of_float f) else None)
      | _ \<Rightarrow>
         (let text = strip (py_str py v) in
          case float_parse py text of
            None \<Rightarrow> None
          | Some f \<Rightarrow> (if is_integer f then Some (int_of_float f) else None)))"

section \<open>Issues\<close>

text \<open>
  An issue is a Python dictionary with text keys, kept as an association list in
  insertion order; its values are \<open>None\<close>, integers, floats or text.
\<close>

datatype pyval = VNone | VInt int | VFloat pyfloat | VStr string

type_synonym issue = "(string \<times> pyval) list"

fun num_val :: "pynum \<Rightarrow> pyval" where
  "num_val (NInt i) = VInt i"
| "num_val (NFloat f) = VFloat f"

text \<open>The \<open>row\<close> argument is \<open>None\<close> or a row number.\<close>

definition make_issue :: "pyval \<Rightarrow> string \<Rightarrow> string \<Rightarrow> string \<Rightarrow> string option \<Rightarrow> issue" where
  "make_issue row message rule severity field =
     [(''row'', row),
      (''message'', VStr message),
      (''rule'', VStr rule),
      (''severity'', VStr severity)]
     @ (case field of
          None \<Rightarrow> []
        | Some f \<Rightarrow> (if f \<noteq> [] then [(''field'', VStr f)] else []))"

section \<open>Tables\<close>

text \<open>
  A loaded table: the ordered column names and the rows in file order, each with its
  index label; \<open>df.iterrows()\<close> yields these pairs and \<open>len(df)\<close> is their number.
\<close>

record dataframe =
  df_columns :: "string list"
  df_rows :: "(label \<times> row) list"

definition iterrows :: "dataframe \<Rightarrow> (label \<times> row) list" where
  "iterrows df = df_rows df"

definition has_columns :: "string list \<Rightarrow> dataframe \<Rightarrow> bool" where
  "has_columns names df = (set names \<subseteq> set (df_columns df))"

text \<open>Python's order on text (by code point) and \<open>sorted\<close> as insertion sort.\<close>

fun str_less :: "string \<Rightarrow> string \<Rightarrow> bool" where
  "str_less [] [] = False"
| "str_less [] (y # ys) = True"
| "str_less (x # xs) [] = False"
| "str_less (x # xs) (y # ys) =
     ((of_char x :: nat) < of_char y \<or> (x = y \<and> str_less xs ys))"

fun insort_by :: "('a \<Rightarrow> 'a \<Rightarrow> bool) \<Rightarrow> 'a \<Rightarrow> 'a list \<Rightarrow> 'a list" where
  "insort_by lt x [] = [x]"
| "insort_by lt x (y # ys) = (if lt y x then y # insort_by lt x ys else x # y # ys)"

definition sorted_by :: "('a \<Rightarrow> 'a \<Rightarrow> bool) \<Rightarrow> 'a list \<Rightarrow> 'a list" where
  "sorted_by lt xs = foldr (insort_by lt) xs []"

section \<open>Schema check (rules/missing\_columns.py)\<close>

definition check_missing_columns :: "dataframe \<Rightarrow> issue list" where
  "check_missing_columns df =
     (let required = [''Action'', ''Expected Results''];
          missing = sorted_by str_less (filter (\<lambda>c. c \<notin> set (df_columns df)) required)
      in if missing \<noteq> []
         then [make_issue VNone (''Missing required columns: '' @ join '', '' missing)
                 ''MISSING_COLUMNS'' ''FAIL'' None]
         else [])"

section \<open>Row rules\<close>

text \<open>
  Each rule loops over \<open>df.iterrows()\<close>. The body of the loop is a function of the
  label and the row; it raises where \<open>excel_row_number\<close> does.
\<close>

definition required_fields_row :: "pyenv \<Rightarrow> label \<times> row \<Rightarrow> error + issue list" where
  "required_fields_row py = (\<lambda>(idx, row).
     if is_blank_row py row then Inr []
     else
       (case excel_row_number py idx of
          Inl e \<Rightarrow> Inl e
        | Inr row_num \<Rightarrow>
            Inr ((if is_empty_like py (row_get row ''Action'' (CStr ''''))
                  then [make_issue (num_val row_num) ''Action is empty'' ''REQUIRED_FIELDS''
                          ''FAIL'' (Some ''Action'')]
                  else [])
                 @ (if is_empty_like py (row_get row ''Expected Results'' (CStr ''''))
                    then [make_issue (num_val row_num) ''Expected Results is empty''
                            ''REQUIRED_FIELDS'' ''FAIL'' (Some ''Expected Results'')]
                    else []))))"

definition check_required_fields :: "pyenv \<Rightarrow> dataframe \<Rightarrow> error + issue list" where
  "check_required_fields py df =
     (if \<not> has_columns [''Action'', ''Expected Results''] df then Inr []
      else for_each (required_fields_row py) (iterrows df))"

definition blank_rows_row :: "pyenv \<Rightarrow> label \<times> row \<Rightarrow> error + issue list" where
  "blank_rows_row py = (\<lambda>(idx, row).
     if is_blank_row py row
     then (case excel_row_number py idx of
             Inl e \<Rightarrow> Inl e
           | Inr row_num \<Rightarrow>
               Inr [make_issue (num_val row_num) ''Blank row'' ''BLANK_ROW'' ''WARNING'' None])
     else Inr [])"

definition check_blank_rows :: "pyenv \<Rightarrow> dataframe \<Rightarrow> error + issue list" where
  "check_blank_rows py df = for_each (blank_rows_row py) (iterrows df)"

definition data_required_row :: "pyenv \<Rightarrow> label \<times> row \<Rightarrow> error + issue list" where
  "data_required_row py = (\<lambda>(idx, row).
     if is_blank_row py row then Inr []
     else
       (let target_action = ''search for patient using name or ssn'';
            action = lower (strip (py_str py (row_get row ''Action'' (CStr ''''))));
            data = row_get row ''Data'' (CStr '''')
        in if action = target_action \<and> is_empty_like py data
           then (case excel_row_number py idx of
                   Inl e \<Rightarrow> Inl e
                 | Inr row_num \<Rightarrow>
                     Inr [make_issue (num_val row_num)
                            ''Data is required for this Action (provide patient name or SSN)''
                            ''DATA_REQUIRED'' ''FAIL'' (Some ''Data'')])
           else Inr []))"

definition check_data_required_for_actions :: "pyenv \<Rightarrow> dataframe \<Rightarrow> error + issue list" where
  "check_data_required_for_actions py df =
     (if \<not> has_columns [''Action'', ''Data''] df then Inr []
      else for_each (data_required_row py) (iterrows df))"

definition punctuation_row :: "pyenv \<Rightarrow> label \<times> row \<Rightarrow> error + issue list" where
  "punctuation_row py = (\<lambda>(idx, row).
     if is_blank_row py row then Inr []
     else
       (let v = row_get row ''Expected Results'' (CStr '''') in
        if is_empty_like py v then Inr []
        else
          (let text = strip (py_str py v) in
           if \<not> endswith text ''.''
           then (case excel_row_number py idx of
                   Inl e \<Rightarrow> Inl e
                 | Inr row_num \<Rightarrow>
                     Inr [make_issue (num_val row_num)
                            ''Expected Results should end with a period (.)''
                            ''EXPECTED_RESULTS_PUNCTUATION'' ''WARNING''
                            (Some ''Expected Results'')])
           else Inr [])))"

definition check_expected_results_punctuation :: "pyenv \<Rightarrow> dataframe \<Rightarrow> error + issue list" where
  "check_expected_results_punctuation py df =
     (if \<not> has_columns [''Expected Results''] df then Inr []
      else for_each (punctuation_row py) (iterrows df))"

subsection \<open>Generic Expected Results (rules/generic\_expected\_results.py)\<close>

definition GENERIC_PHRASES :: "string list" where
  "GENERIC_PHRASES =
     [''ok'', ''okay'', ''works'', ''work'', ''done'', ''completed'', ''complete'', ''success'',
      ''successful'', ''pass'', ''passed'', ''correct'', ''correctly'', ''as expected'']"

definition normalize_text :: "pyenv \<Rightarrow> cell \<Rightarrow> string" where
  "normalize_text py text = (if text = CNone then '''' else lower (strip (py_str py text)))"

definition generic_issue :: "pyenv \<Rightarrow> pynum \<Rightarrow> cell \<Rightarrow> issue" where
  "generic_issue py row_num expected =
     make_issue (num_val row_num)
       (''Expected Results is too generic ('' @ [CHR 0x22] @ strip (py_str py expected)
          @ [CHR 0x22] @ '')'')
       ''GENERIC_EXPECTED_RESULTS'' ''WARNING'' (Some ''Expected Results'')"

definition short_issue :: "pyenv \<Rightarrow> pynum \<Rightarrow> cell \<Rightarrow> issue" where
  "short_issue py row_num expected =
     make_issue (num_val row_num)
       (''Expected Results is too short ('' @ [CHR 0x22] @ strip (py_str py expected)
          @ [CHR 0x22] @ '')'')
       ''GENERIC_EXPECTED_RESULTS'' ''WARNING'' (Some ''Expected Results'')"

definition generic_row :: "pyenv \<Rightarrow> label \<times> row \<Rightarrow> error + issue list" where
  "generic_row py = (\<lambda>(idx, row).
     if is_blank_row py row then Inr []
     else
       (let expected = row_get row ''Expected Results'' (CStr '''') in
        if is_empty_like py expected then Inr []
        else
          (let expected_norm = normalize_text py expected in
           if expected_norm \<in> set GENERIC_PHRASES
           then (case excel_row_number py idx of
                   Inl e \<Rightarrow> Inl e
                 | Inr row_num \<Rightarrow> Inr [generic_issue py row_num expected])
           else if length expected_norm \<le> 3
           then (case excel_row_number py idx of
                   Inl e \<Rightarrow> Inl e
                 | Inr row_num \<Rightarrow> Inr [short_issue py row_num expected])
           else Inr [])))"

definition check_generic_expected_results :: "pyenv \<Rightarrow> dataframe \<Rightarrow> error + issue list" where
  "check_generic_expected_results py df =
     (if \<not> has_columns [''Expected Results''] df then Inr []
      else for_each (generic_row py) (iterrows df))"

section \<open>Step numbering (rules/step\_numbering.py)\<close>

text \<open>The issues of this rule are dictionaries with the keys \<open>row\<close> and \<open>error\<close> only.\<close>

definition step_error :: "pynum \<Rightarrow> string \<Rightarrow> issue" where
  "step_error row_num msg = [(''row'', num_val row_num), (''error'', VStr msg)]"

text \<open>\<open>df[name]\<close> read at one row; a frame holds NaN where a row has no value.\<close>

definition column_value :: "row \<Rightarrow> string \<Rightarrow> cell" where
  "column_value r name = row_get r name (CFloat NaN)"

text \<open>
  \<open>groupby\<close> compares keys as Python does (an integer equals the float of the same
  value) and, with its default \<open>sort=True\<close>, yields the groups in ascending key order:
  numbers by value, text by code point, numbers before text.
\<close>

fun to_float :: "cell \<Rightarrow> pyfloat option" where
  "to_float (CInt i) = Some (Finite (of_int i))"
| "to_float (CNpInt i) = Some (Finite (of_int i))"
| "to_float (CFloat f) = Some f"
| "to_float _ = None"

fun float_less :: "pyfloat \<Rightarrow> pyfloat \<Rightarrow> bool" where
  "float_less (Finite a) (Finite b) = (a < b)"
| "float_less NegInf (Finite b) = True"
| "float_less NegInf PosInf = True"
| "float_less (Finite a) PosInf = True"
| "float_less _ _ = False"

definition key_eq :: "cell \<Rightarrow> cell \<Rightarrow> bool" where
  "key_eq a b =
     (case (to_float a, to_float b) of
        (Some x, Some y) \<Rightarrow> x = y \<and> x \<noteq> NaN
      | (None, None) \<Rightarrow> a = b
      | _ \<Rightarrow> False)"

definition key_less :: "cell \<Rightarrow> cell \<Rightarrow> bool" where
  "key_less a b =
     (case (to_float a, to_float b) of
        (Some x, Some y) \<Rightarrow> float_less x y
      | (Some x, None) \<Rightarrow> True
      | (None, Some y) \<Rightarrow> False
      | (None, None) \<Rightarrow>
          (case (a, b) of
             (CStr s, CStr t) \<Rightarrow> str_less s t
           | (CStr s, CNone) \<Rightarrow> True
           | _ \<Rightarrow> False))"

fun unique_keys :: "cell list \<Rightarrow> cell list \<Rightarrow> cell list" where
  "unique_keys seen [] = seen"
| "unique_keys seen (k # ks) =
     (if list_ex (\<lambda>x. key_eq x k) seen then unique_keys seen ks
      else unique_keys (seen @ [k]) ks)"

definition groupby :: "string \<Rightarrow> (label \<times> row) list \<Rightarrow> (cell \<times> (label \<times> row) list) list" where
  "groupby name working =
     (let keys = sorted_by key_less (unique_keys [] (map (\<lambda>(idx, r). column_value r name) working))
      in map (\<lambda>k. (k, filter (\<lambda>(idx, r). key_eq (column_value r name) k) working)) keys)"

text \<open>The state of the loop over the rows of one group.\<close>

record group_state =
  g_errors :: "issue list"
  steps_in_order :: "(pynum \<times> int) list"
  step_to_rows :: "(int \<times> pynum list) list"
  group_rows :: "pynum list"

text \<open>\<open>d.setdefault(k, []).append(r)\<close> on a dictionary kept in insertion order.\<close>

fun setdefault_append :: "(int \<times> pynum list) list \<Rightarrow> int \<Rightarrow> pynum \<Rightarrow> (int \<times> pynum list) list" where
  "setdefault_append [] k r = [(k, [r])]"
| "setdefault_append ((k', rs) # m) k r =
     (if k' = k then (k', rs @ [r]) # m else (k', rs) # setdefault_append m k r)"

text \<open>The body of the loop over the rows of a group. The row number is computed first.\<close>

definition step_row :: "pyenv \<Rightarrow> cell \<Rightarrow> group_state \<Rightarrow> label \<times> row \<Rightarrow> error + group_state" where
  "step_row py tc_id st = (\<lambda>(idx, row).
     case excel_row_number py idx of
       Inl e \<Rightarrow> Inl e
     | Inr row_num \<Rightarrow>
         Inr (let st1 = st\<lparr>group_rows := group_rows st @ [row_num]\<rparr>;
                  raw = row_get row ''Step #'' (CStr '''')
              in case to_int_step py raw of
                   None \<Rightarrow>
                     (if is_empty_like py raw
                      then st1\<lparr>g_errors := g_errors st1 @
                             [step_error row_num
                                (''Step # is empty (Test Case ID: '' @ py_str py tc_id @ '')'')]\<rparr>
                      else st1\<lparr>g_errors := g_errors st1 @
                             [step_error row_num
                                (''Step # is not a number: '' @ [CHR 0x22] @ strip (py_str py raw)
                                   @ [CHR 0x22] @ '' (Test Case ID: '' @ py_str py tc_id
                                   @ '')'')]\<rparr>)
                 | Some step_int \<Rightarrow>
                     st1\<lparr>steps_in_order := steps_in_order st1 @ [(row_num, step_int)],
                         step_to_rows := setdefault_append (step_to_rows st1) step_int row_num\<rparr>))"

fun group_loop :: "pyenv \<Rightarrow> cell \<Rightarrow> group_state \<Rightarrow> (label \<times> row) list \<Rightarrow> error + group_state" where
  "group_loop py tc_id st [] = Inr st"
| "group_loop py tc_id st (p # ps) =
     (case step_row py tc_id st p of
        Inl e \<Rightarrow> Inl e
      | Inr st' \<Rightarrow> group_loop py tc_id st' ps)"

definition duplicate_errors :: "pyenv \<Rightarrow> cell \<Rightarrow> (int \<times> pynum list) list \<Rightarrow> issue list" where
  "duplicate_errors py tc_id items =
     concat (map (\<lambda>(step, rows).
       if length rows > 1
       then map (\<lambda>r. step_error r
              (''Duplicate Step # '' @ str_int step @ '' in Test Case ID '' @ py_str py tc_id)) rows
       else []) items)"

text \<open>\<open>max\<close> of integers and \<open>min\<close> of row numbers; both raise on an empty list.\<close>

fun py_max :: "int list \<Rightarrow> error + int" where
  "py_max [] = Inl (ValueError ''max() arg is an empty sequence'')"
| "py_max (x # xs) = Inr (foldl (\<lambda>m y. if m < y then y else m) x xs)"

fun num_less :: "pynum \<Rightarrow> pynum \<Rightarrow> bool" where
  "num_less (NInt a) (NInt b) = (a < b)"
| "num_less (NInt a) (NFloat g) = float_less (Finite (of_int a)) g"
| "num_less (NFloat f) (NInt b) = float_less f (Finite (of_int b))"
| "num_less (NFloat f) (NFloat g) = float_less f g"

fun py_min :: "pynum list \<Rightarrow> error + pynum" where
  "py_min [] = Inl (ValueError ''min() arg is an empty sequence'')"
| "py_min (x # xs) = Inr (foldl (\<lambda>m y. if num_less y m then y else m) x xs)"

text \<open>
  The missing-step check. It is reached only after the test that the group has a valid
  step, so \<open>max\<close> and \<open>min\<close> are applied to non-empty lists
  (\<open>group_state_nonempty\<close> below).
\<close>

definition missing_errors :: "pyenv \<Rightarrow> cell \<Rightarrow> group_state \<Rightarrow> error + issue list" where
  "missing_errors py tc_id st =
     (let valid_steps = sort (map fst (step_to_rows st)) in
      case py_max valid_steps of
        Inl e \<Rightarrow> Inl e
      | Inr max_step \<Rightarrow>
          (let missing = sort (filter (\<lambda>n. n \<notin> set valid_steps) [1..max_step]) in
           if missing \<noteq> []
           then (case py_min (group_rows st) of
                   Inl e \<Rightarrow> Inl e
                 | Inr first_row \<Rightarrow>
                     Inr [step_error first_row
                            (''Missing Step # in Test Case ID '' @ py_str py tc_id @ '': ''
                               @ join '', '' (map str_int missing))])
           else Inr []))"

definition out_of_order_message :: string where
  "out_of_order_message =
     ''Step # is out of order in Test Case ID {tc_id} (expected ascending order)''"

text \<open>The ordering loop stops at the first decrease (\<open>break\<close>).\<close>

fun order_errors :: "(pynum \<times> int) list \<Rightarrow> issue list" where
  "order_errors (a # b # rest) =
     (if snd b < snd a then [step_error (fst b) out_of_order_message]
      else order_errors (b # rest))"
| "order_errors _ = []"

text \<open>The body of the loop over the groups: the issues that one group adds.\<close>

definition group_errors :: "pyenv \<Rightarrow> cell \<Rightarrow> (label \<times> row) list \<Rightarrow> error + issue list" where
  "group_errors py tc_id grp =
     (case group_loop py tc_id
             \<lparr>g_errors = [], steps_in_order = [], step_to_rows = [], group_rows = []\<rparr> grp of
        Inl e \<Rightarrow> Inl e
      | Inr st \<Rightarrow>
          if steps_in_order st = [] then Inr (g_errors st)
          else (case missing_errors py tc_id st of
                  Inl e \<Rightarrow> Inl e
                | Inr missing \<Rightarrow>
                    Inr (g_errors st
                         @ duplicate_errors py tc_id (step_to_rows st)
                         @ missing
                         @ order_errors (steps_in_order st))))"

text \<open>The rows left after the two filters: not blank, and with a Test Case ID.\<close>

definition working_rows :: "pyenv \<Rightarrow> dataframe \<Rightarrow> (label \<times> row) list" where
  "working_rows py df =
     filter (\<lambda>(idx, r). \<not> is_empty_like py (column_value r ''Test Case ID''))
       (filter (\<lambda>(idx, r). \<not> is_blank_row py r) (iterrows df))"

text \<open>
  On a frame without rows the row-wise \<open>apply\<close> gives an empty result that is not a
  Boolean mask; indexing the frame with it selects no column, and reading the
  Test Case ID column of what is left raises KeyError.
\<close>

definition check_step_numbering :: "pyenv \<Rightarrow> dataframe \<Rightarrow> error + issue list" where
  "check_step_numbering py df =
     (if \<not> has_columns [''Test Case ID'', ''Step #''] df then Inr []
      else if iterrows df = [] then Inl (KeyError ''Test Case ID'')
      else
        (let working = working_rows py df
         in if working = [] then Inr []
            else for_each (\<lambda>(tc_id, grp). group_errors py tc_id grp)
                   (groupby ''Test Case ID'' working)))"

section \<open>Core steps (core\_steps.py, config.py)\<close>

record CoreStep =
  action :: string
  expected :: string

definition CORE_STEPS :: "CoreStep list" where
  "CORE_STEPS =
     [\<lparr>action = ''Launch CAPRI application from desktop'',
       expected = ''Windows Security Certificate Selection window pop-up displays.''\<rparr>,
      \<lparr>action = ''Select appropriate PIV Card Certificate and select OK button'',
       expected = ''ActivClient Login pin screen displays.''\<rparr>,
      \<lparr>action = ''Enter PIN and hit Enter'',
       expected = ''System Use Notification window displays.''\<rparr>,
      \<lparr>action = ''Click OK button'',
       expected = ''CAPRI News feed displays.''\<rparr>,
      \<lparr>action = ''Click Close button'',
       expected = ''CAPRI GUI version pop-up displays.''\<rparr>,
      \<lparr>action = ''Click OK button'',
       expected = ''CAPRI alerts screen displays.''\<rparr>,
      \<lparr>action = ''Click Continue button'',
       expected = ''CAPRI application loads. Patient Selector screen displays.''\<rparr>,
      \<lparr>action = ''Search for Patient using Name or SSN'',
       expected = ''Patient record is displayed.''\<rparr>]"

definition normalize_spaces :: "string \<Rightarrow> string" where
  "normalize_spaces text = join '' '' (split (strip text))"

definition steps_match :: "string \<Rightarrow> string \<Rightarrow> bool" where
  "steps_match a b = (normalize_spaces a = normalize_spaces b)"

text \<open>The settings of config.py that the scanner reads.\<close>

record config =
  ENABLE_CORE_STEPS :: bool
  CORE_ANCHOR_STEP_3_ACTION :: string
  CORE_ANCHOR_STEP_4_ACTION :: string
  CORE_ANCHOR_STEP_5_ACTION :: string
  CORE_ANCHOR_STEP_8_ACTION :: string
  CORE_ANCHOR_MIN_MATCHES :: int
  CORE_STEPS_COUNT :: int

definition cfg :: config where
  "cfg = \<lparr>ENABLE_CORE_STEPS = True,
          CORE_ANCHOR_STEP_3_ACTION = ''Enter PIN and hit Enter'',
          CORE_ANCHOR_STEP_4_ACTION = ''Click OK button'',
          CORE_ANCHOR_STEP_5_ACTION = ''Click OK button'',
          CORE_ANCHOR_STEP_8_ACTION = ''Click Continue button'',
          CORE_ANCHOR_MIN_MATCHES = 2,
          CORE_STEPS_COUNT = 8\<rparr>"

section \<open>Core-steps enforcement (scanner.py)\<close>

text \<open>One entry of the \<open>steps\<close> list: the dictionary with keys \<open>action\<close> and \<open>expected\<close>.\<close>

record step =
  step_action :: string
  step_expected :: string

definition core_issue :: "int \<Rightarrow> string \<Rightarrow> issue" where
  "core_issue excel_row msg =
     [(''severity'', VStr ''WARNING''), (''excel_row'', VInt excel_row), (''message'', VStr msg)]"

definition anchor_step_map :: "config \<Rightarrow> (nat \<times> string) list" where
  "anchor_step_map c =
     [(3, CORE_ANCHOR_STEP_3_ACTION c),
      (4, CORE_ANCHOR_STEP_4_ACTION c),
      (5, CORE_ANCHOR_STEP_5_ACTION c),
      (8, CORE_ANCHOR_STEP_8_ACTION c)]"

definition build_steps :: "pyenv \<Rightarrow> dataframe \<Rightarrow> step list" where
  "build_steps py df =
     map (\<lambda>(idx, row).
       \<lparr>step_action = (if isna (row_get row ''Action'' CNone) then ''''
                        else py_str py (row_get row ''Action'' CNone)),
        step_expected = (if isna (row_get row ''Expected Results'' CNone) then ''''
                          else py_str py (row_get row ''Expected Results'' CNone))\<rparr>)
       (iterrows df)"

text \<open>The anchor loop; it runs only when every anchor position is a row of the table.\<close>

definition count_anchor_matches :: "config \<Rightarrow> step list \<Rightarrow> int" where
  "count_anchor_matches c steps =
     foldl (\<lambda>match_count (step_num, expected_action).
        if expected_action = [] then match_count
        else
          (let idx = step_num - 1;
               found_action = step_action (steps ! idx)
           in if steps_match found_action expected_action then match_count + 1
              else match_count))
       0 (anchor_step_map c)"

definition enforce_step :: "step list \<Rightarrow> nat \<Rightarrow> issue list" where
  "enforce_step steps i =
     (let expected_action = action (CORE_STEPS ! i);
          expected_expected = expected (CORE_STEPS ! i);
          found_action = step_action (steps ! i);
          found_expected = step_expected (steps ! i);
          excel_row = int i + 2
      in (if \<not> steps_match found_action expected_action
          then [core_issue excel_row
                  (''Core Step '' @ str_int (int i + 1) @ '' Action mismatch. ''
                     @ ''Expected: '' @ [CHR 0x22] @ expected_action @ [CHR 0x22]
                     @ '' | Found: '' @ [CHR 0x22] @ found_action @ [CHR 0x22] @ ''.'')]
          else [])
         @ (if \<not> steps_match found_expected expected_expected
            then [core_issue excel_row
                    (''Core Step '' @ str_int (int i + 1) @ '' Expected Results mismatch. ''
                       @ ''Expected: '' @ [CHR 0x22] @ expected_expected @ [CHR 0x22]
                       @ '' | Found: '' @ [CHR 0x22] @ found_expected @ [CHR 0x22] @ ''.'')]
            else []))"

text \<open>The enforcement loop over the first \<open>enforce_n\<close> rows.\<close>

definition enforce_core_steps :: "config \<Rightarrow> step list \<Rightarrow> issue list" where
  "enforce_core_steps c steps =
     (let enforce_n = min (CORE_STEPS_COUNT c) (min (int (length CORE_STEPS)) (int (length steps)))
      in concat (map (enforce_step steps) [0..<nat enforce_n]))"

definition check_core_steps_enforcement :: "config \<Rightarrow> pyenv \<Rightarrow> dataframe \<Rightarrow> issue list" where
  "check_core_steps_enforcement c py df =
     (if \<not> ENABLE_CORE_STEPS c then []
      else if ''Action'' \<notin> set (df_columns df) \<or> ''Expected Results'' \<notin> set (df_columns df)
      then []
      else
        (let min_matches = CORE_ANCHOR_MIN_MATCHES c;
             steps = build_steps py df
         in if length steps < Max (set (map fst (anchor_step_map c))) then []
            else if count_anchor_matches c steps < min_matches then []
            else enforce_core_steps c steps))"

section \<open>The scanner (scanner.py)\<close>

definition RULES :: "pyenv \<Rightarrow> (dataframe \<Rightarrow> error + issue list) list" where
  "RULES py =
     [(\<lambda>df. Inr (check_missing_columns df)),
      check_required_fields py,
      check_blank_rows py,
      check_data_required_for_actions py,
      check_expected_results_punctuation py,
      check_generic_expected_results py]"

definition CONDITIONAL_RULES :: "pyenv \<Rightarrow> (string list \<times> (dataframe \<Rightarrow> error + issue list)) list" where
  "CONDITIONAL_RULES py = [([''Test Case ID'', ''Step #''], check_step_numbering py)]"

record scan_result =
  sr_rows :: nat
  sr_columns :: "string list"
  sr_errors :: "issue list"

text \<open>
  The body of \<open>scan\<close> once the table is loaded. An exception raised by a rule leaves
  \<open>scan\<close>; the schema check and the core-steps rule raise nothing.
\<close>

definition scan_df :: "config \<Rightarrow> pyenv \<Rightarrow> dataframe \<Rightarrow> error + scan_result" where
  "scan_df c py df =
     (let errors = check_missing_columns df in
      if errors \<noteq> []
      then Inr \<lparr>sr_rows = length (df_rows df), sr_columns = df_columns df, sr_errors = errors\<rparr>
      else
        (case for_each (\<lambda>rule. rule df) (RULES py) of
           Inl e \<Rightarrow> Inl e
         | Inr rule_errors \<Rightarrow>
             (let errors2 = errors @ rule_errors @ check_core_steps_enforcement c py df in
              case for_each (\<lambda>(required_columns, rule).
                       if has_columns required_columns df then rule df else Inr [])
                     (CONDITIONAL_RULES py) of
                Inl e \<Rightarrow> Inl e
              | Inr conditional_errors \<Rightarrow>
                  Inr \<lparr>sr_rows = length (df_rows df), sr_columns = df_columns df,
                       sr_errors = errors2 @ conditional_errors\<rparr>)))"

text \<open>
  \<open>scan\<close> loads the file first. Reading the file is outside the program: its outcome
  is the argument, \<open>Inl e\<close> when the reader raised \<open>e\<close>, and \<open>load_csv\<close> re-raises
  that as a RuntimeError.
\<close>

definition load_csv :: "string + dataframe \<Rightarrow> error + dataframe" where
  "load_csv outcome =
     (case outcome of
        Inl e \<Rightarrow> Inl (RuntimeError (''Failed to load CSV file: '' @ e))
      | Inr df \<Rightarrow> Inr df)"

definition scan :: "config \<Rightarrow> pyenv \<Rightarrow> string + dataframe \<Rightarrow> error + scan_result" where
  "scan c py outcome =
     (case load_csv outcome of
        Inl e \<Rightarrow> Inl e
      | Inr df \<Rightarrow> scan_df c py df)"

section \<open>Severity and strict mode (main.py)\<close>

text \<open>An entry of an error list is a dictionary or, for older rules, plain text.\<close>

datatype err = ErrStr string | ErrDict issue

fun truthy :: "pyval \<Rightarrow> bool" where
  "truthy VNone = False"
| "truthy (VInt i) = (i \<noteq> 0)"
| "truthy (VFloat f) = (f \<noteq> Finite 0)"
| "truthy (VStr s) = (s \<noteq> [])"

definition dict_get :: "issue \<Rightarrow> string \<Rightarrow> pyval" where
  "dict_get d k = (case map_of d k of Some v \<Rightarrow> v | None \<Rightarrow> VNone)"

definition py_or :: "pyval \<Rightarrow> pyval \<Rightarrow> pyval" where
  "py_or a b = (if truthy a then a else b)"

fun extract_severity :: "err \<Rightarrow> string" where
  "extract_severity (ErrStr s) = ''FAIL''"
| "extract_severity (ErrDict d) =
     (let sev = py_or (py_or (dict_get d ''severity'') (dict_get d ''level'')) (dict_get d ''type'')
      in case sev of
           VStr s \<Rightarrow>
             (if strip s \<noteq> []
              then
                (let sev_norm = upper (strip s) in
                 if sev_norm \<in> set [''FAIL'', ''ERROR''] then ''FAIL''
                 else if sev_norm \<in> set [''WARNING'', ''WARN''] then ''WARNING''
                 else if sev_norm \<in> set [''INFO''] then ''INFO''
                 else ''FAIL'')
              else ''FAIL'')
         | _ \<Rightarrow> ''FAIL'')"

definition summarize_issues :: "err list \<Rightarrow> nat \<times> nat \<times> nat" where
  "summarize_issues errors =
     foldl (\<lambda>(fail, warning, info) e.
        let sev = extract_severity e in
        if sev = ''FAIL'' then (fail + 1, warning, info)
        else if sev = ''WARNING'' then (fail, warning + 1, info)
        else (fail, warning, info + 1))
       (0, 0, 0) errors"

text \<open>
  Strict mode works on dictionary objects that the input list and the output list may
  share. The store holds the dictionaries, addressed by position; a list entry is text
  or the address of a dictionary. \<open>dict(e)\<close> allocates a copy at a fresh address and
  the assignment to \<open>new_e["severity"]\<close> updates the store at that address.
\<close>

type_synonym store = "issue list"

datatype entry = EStr string | ERef nat

fun deref :: "store \<Rightarrow> entry \<Rightarrow> err" where
  "deref h (EStr s) = ErrStr s"
| "deref h (ERef a) = ErrDict (h ! a)"

fun strict_step :: "store \<times> entry list \<Rightarrow> entry \<Rightarrow> store \<times> entry list" where
  "strict_step (h, strict_errors) (EStr s) = (h, strict_errors @ [EStr s])"
| "strict_step (h, strict_errors) (ERef a) =
     (let sev = extract_severity (deref h (ERef a)) in
      if sev = ''WARNING''
      then (let new_e = length h;
                h1 = h @ [h ! a];
                h2 = h1[new_e := AList.update ''severity'' (VStr ''FAIL'') (h1 ! new_e)]
            in (h2, strict_errors @ [ERef new_e]))
      else (h, strict_errors @ [ERef a]))"

definition apply_strict_mode :: "store \<Rightarrow> entry list \<Rightarrow> store \<times> entry list" where
  "apply_strict_mode h errors = foldl strict_step (h, []) errors"

text \<open>Every address in the list is allocated in the store.\<close>

definition valid_entries :: "store \<Rightarrow> entry list \<Rightarrow> bool" where
  "valid_entries h errors = list_all (\<lambda>e. case e of EStr s \<Rightarrow> True | ERef a \<Rightarrow> a < length h) errors"

section \<open>Sample inputs\<close>

text \<open>
  A sample of the runtime's float operations, for running the definitions on concrete
  inputs. It prints 3.0 as Python does, parses three decimal texts as Python does (the
  nearest double to 9007199254740993 is 9007199254740992), and adds exactly.
\<close>

definition sample_py :: pyenv where
  "sample_py =
     \<lparr>float_str = (\<lambda>f. if f = Finite 3 then ''3.0'' else ''3.5''),
      float_parse = (\<lambda>s. if s = ''4.0'' then Some (Finite 4)
                          else if s = ''2.5'' then Some (Finite (5 / 2))
                          else if s = ''12'' then Some (Finite 12)
                          else if s = ''1'' then Some (Finite 1)
                          else if s = ''2'' then Some (Finite 2)
                          else if s = ''3'' then Some (Finite 3)
                          else if s = ''9007199254740993'' then Some (Finite 9007199254740992)
                          else None),
      float_add_int = (\<lambda>f n. case f of Finite q \<Rightarrow> Finite (q + of_int n) | _ \<Rightarrow> f)\<rparr>"

text \<open>Four rows with the default index: a specific text, \<open>"OK "\<close>, \<open>"ok"\<close> and \<open>"No."\<close>.\<close>

definition generic_table :: dataframe where
  "generic_table =
     \<lparr>df_columns = [''Action'', ''Expected Results''],
      df_rows =
        [(LInt 0, [(''Action'', CStr ''Open the chart''), (''Expected Results'', CStr ''The chart opens.'')]),
         (LInt 1, [(''Action'', CStr ''Click Save''), (''Expected Results'', CStr ''OK '')]),
         (LInt 2, [(''Action'', CStr ''Click Close''), (''Expected Results'', CStr ''ok'')]),
         (LInt 3, [(''Action'', CStr ''Click Cancel''), (''Expected Results'', CStr ''No.'')])]\<rparr>"

text \<open>The eight template steps as a table with the default index, the first row left blank.\<close>

definition blank_first_table :: dataframe where
  "blank_first_table =
     \<lparr>df_columns = [''Action'', ''Expected Results''],
      df_rows =
        (LInt 0, [(''Action'', CFloat NaN), (''Expected Results'', CFloat NaN)])
        # zip [LInt 1, LInt 2, LInt 3, LInt 4, LInt 5, LInt 6, LInt 7]
            (map (\<lambda>s. [(''Action'', CStr (action s)), (''Expected Results'', CStr (expected s))])
               (tl CORE_STEPS))\<rparr>"

text \<open>A table without the Action column, whose index labels are text.\<close>

definition junk_table :: dataframe where
  "junk_table =
     \<lparr>df_columns = [''Test Case ID'', ''Expected Results''],
      df_rows =
        [(LStr ''0'', [(''Test Case ID'', CFloat NaN), (''Expected Results'', CFloat NaN)]),
         (LStr ''x'', [(''Test Case ID'', CStr ''TC1''), (''Expected Results'', CStr ''ok'')])]\<rparr>"

text \<open>One test case with the Step # values 1, 2, 2, 4, with the default index.\<close>

definition tc1_table :: dataframe where
  "tc1_table =
     \<lparr>df_columns = [''Test Case ID'', ''Step #'', ''Action'', ''Expected Results''],
      df_rows =
        [(LInt 0, [(''Test Case ID'', CStr ''TC1''), (''Step #'', CInt 1),
          (''Action'', CStr ''Open''), (''Expected Results'', CStr ''Window opens.'')]),
         (LInt 1, [(''Test Case ID'', CStr ''TC1''), (''Step #'', CInt 2),
          (''Action'', CStr ''Type''), (''Expected Results'', CStr ''Text shows.'')]),
         (LInt 2, [(''Test Case ID'', CStr ''TC1''), (''Step #'', CInt 2),
          (''Action'', CStr ''Save''), (''Expected Results'', CStr ''File is saved.'')]),
         (LInt 3, [(''Test Case ID'', CStr ''TC1''), (''Step #'', CInt 4),
          (''Action'', CStr ''Close''), (''Expected Results'', CStr ''Window closes.'')])]\<rparr>"

text \<open>
  Two test cases with the default index: TC1 has the Step # values 1, 3, a text that is
  not a number, 2 and 1; a blank row follows; TC2 has 1 and 2.  The cells of the Step #
  column are text, as in a column that does not hold numbers only.
\<close>

definition two_groups_table :: dataframe where
  "two_groups_table =
     \<lparr>df_columns = [''Test Case ID'', ''Step #''],
      df_rows =
        [(LInt 0, [(''Test Case ID'', CStr ''TC1''), (''Step #'', CStr ''1'')]),
         (LInt 1, [(''Test Case ID'', CStr ''TC1''), (''Step #'', CStr ''3'')]),
         (LInt 2, [(''Test Case ID'', CStr ''TC1''), (''Step #'', CStr ''x'')]),
         (LInt 3, [(''Test Case ID'', CStr ''TC1''), (''Step #'', CStr ''2'')]),
         (LInt 4, [(''Test Case ID'', CStr ''TC1''), (''Step #'', CStr ''1'')]),
         (LInt 5, [(''Test Case ID'', CFloat NaN), (''Step #'', CFloat NaN)]),
         (LInt 6, [(''Test Case ID'', CStr ''TC2''), (''Step #'', CStr ''1'')]),
         (LInt 7, [(''Test Case ID'', CStr ''TC2''), (''Step #'', CStr ''2'')])]\<rparr>"



text \<open>A store with a WARNING and a FAIL issue, and an error list that also holds plain text.\<close>

definition sample_store :: store where
  "sample_store =
     [[(''row'', VInt 2), (''message'', VStr ''Blank row''), (''rule'', VStr ''BLANK_ROW''),
       (''severity'', VStr ''WARNING'')],
      [(''row'', VInt 3), (''message'', VStr ''Action is empty''),
       (''rule'', VStr ''REQUIRED_FIELDS''), (''severity'', VStr ''FAIL''),
       (''field'', VStr ''Action'')]]"

definition sample_errors :: "entry list" where
  "sample_errors = [ERef 0, ERef 1, EStr ''legacy'']"

text \<open>Five rows; the third and fourth Action match their anchors up to white space.\<close>

definition short_table :: dataframe where
  "short_table =
     \<lparr>df_columns = [''Action'', ''Expected Results''],
      df_rows =
        [(LInt 0, [(''Action'', CStr ''Open the application''), (''Expected Results'', CStr ''Login page displays.'')]),
         (LInt 1, [(''Action'', CStr ''Insert the card''), (''Expected Results'', CStr ''Card is read.'')]),
         (LInt 2, [(''Action'', CStr ''Enter PIN and  hit Enter''), (''Expected Results'', CStr ''System Use Notification window displays.'')]),
         (LInt 3, [(''Action'', CStr '' Click OK button''), (''Expected Results'', CStr ''CAPRI News feed displays.'')]),
         (LInt 4, [(''Action'', CStr ''Click Close button''), (''Expected Results'', CStr ''CAPRI GUI version pop-up displays.'')])]\<rparr>"

text \<open>Eight rows of which only the third Action matches its anchor.\<close>

definition one_anchor_table :: dataframe where
  "one_anchor_table =
     \<lparr>df_columns = [''Action'', ''Expected Results''],
      df_rows =
        zip [LInt 0, LInt 1, LInt 2, LInt 3, LInt 4, LInt 5, LInt 6, LInt 7]
          (map (\<lambda>a. [(''Action'', CStr a), (''Expected Results'', CStr ''Done as described.'')])
             [''Step one'', ''Step two'', ''Enter PIN and hit Enter'', ''Step four'', ''Step five'',
              ''Step six'', ''Step seven'', ''Step eight''])\<rparr>"

text \<open>One row with a test-case identifier and an empty Step #.\<close>

definition no_step_table :: dataframe where
  "no_step_table =
     \<lparr>df_columns = [''Test Case ID'', ''Step #'', ''Action'', ''Expected Results''],
      df_rows =
        [(LInt 0, [(''Test Case ID'', CStr ''TC1''), (''Step #'', CFloat NaN),
          (''Action'', CStr ''Open the chart''), (''Expected Results'', CStr ''The chart opens.'')])]\<rparr>"

section \<open>Evaluation rules\<close>

lemmas text_eval = strip_def is_space_def lower_def lower_char_def upper_def upper_char_def
  char_of_def bit_Suc_0_iff str_int_def digits.simps split_def normalize_spaces_def
  steps_match_def endswith_def

lemmas row_eval = is_empty_like_def EMPTY_LIKE_VALUES_def row_get_def is_blank_row_def
  make_issue_def iterrows_def has_columns_def sorted_by_def

section \<open>Loops that can raise\<close>

lemma for_each_append:
  "for_each f (xs @ ys) =
     (case for_each f xs of
        Inl e \<Rightarrow> Inl e
      | Inr a \<Rightarrow> (case for_each f ys of Inl e \<Rightarrow> Inl e | Inr b \<Rightarrow> Inr (a @ b)))"
  by (induction xs) (auto split: sum.splits)

lemma for_each_mem:
  "for_each f xs = Inr out \<Longrightarrow> e \<in> set out \<Longrightarrow> \<exists>x \<in> set xs. \<exists>ys. f x = Inr ys \<and> e \<in> set ys"
  by (induction xs arbitrary: out) (auto split: sum.splits)


lemma for_each_total:
  "(\<And>x. x \<in> set xs \<Longrightarrow> \<exists>ys. f x = Inr ys) \<Longrightarrow> \<exists>out. for_each f xs = Inr out"
proof (induction xs)
  case Nil
  show ?case by simp
next
  case (Cons x xs)
  from Cons.prems[of x] obtain ys where "f x = Inr ys" by auto
  moreover from Cons.IH Cons.prems obtain zs where "for_each f xs = Inr zs" by auto
  ultimately show ?case by simp
qed

lemma for_each_parts:
  "for_each f xs = Inr out \<Longrightarrow>
     \<exists>parts. out = concat parts \<and> length parts = length xs
       \<and> (\<forall>i < length xs. f (xs ! i) = Inr (parts ! i))"
proof (induction xs arbitrary: out)
  case Nil
  then show ?case by simp
next
  case (Cons x xs)
  from Cons.prems obtain ys zs where y: "f x = Inr ys" and z: "for_each f xs = Inr zs"
    and o: "out = ys @ zs" by (auto split: sum.splits)
  from Cons.IH[OF z] obtain parts where p: "zs = concat parts" "length parts = length xs"
    "\<forall>i < length xs. f (xs ! i) = Inr (parts ! i)" by blast
  have "\<forall>i < length (x # xs). f ((x # xs) ! i) = Inr ((ys # parts) ! i)"
    using y p(3) by (auto simp: nth_Cons')
  with o p show ?case by (intro exI[of _ "ys # parts"]) simp
qed

section \<open>The text of an integer is never empty-like\<close>

lemma digit_nth: "n < 10 \<Longrightarrow> ''0123456789'' ! n \<in> set ''0123456789''"
  using nth_mem[of n "''0123456789''"] by simp

lemma digits_ne: "digits n \<noteq> []"
  by (induction n rule: digits.induct) (subst digits.simps, simp)

lemma digits_set: "set (digits n) \<subseteq> set ''0123456789''"
proof (induction n rule: digits.induct)
  case (1 n)
  show ?case
  proof (cases "n < 10")
    case True
    then show ?thesis using digit_nth[of n] by (subst digits.simps) simp
  next
    case False
    have "n mod 10 < 10" by simp
    then have "''0123456789'' ! (n mod 10) \<in> set ''0123456789''" by (rule digit_nth)
    with False 1 show ?thesis by (subst digits.simps) simp
  qed
qed

lemma digit_not_space: "c \<in> set ''0123456789'' \<Longrightarrow> \<not> is_space c"
  by (auto simp: is_space_def)

lemma digit_lower: "c \<in> set ''0123456789'' \<Longrightarrow> lower_char c = c"
  by (auto simp: lower_char_def)

lemma strip_id: "s \<noteq> [] \<Longrightarrow> \<not> is_space (hd s) \<Longrightarrow> \<not> is_space (last s) \<Longrightarrow> strip s = s"
proof -
  assume a: "s \<noteq> []" "\<not> is_space (hd s)" "\<not> is_space (last s)"
  then have "dropWhile is_space s = s" by (cases s) auto
  moreover from a have "dropWhile is_space (rev s) = rev s"
    by (cases "rev s") (auto simp: last_rev hd_rev)
  ultimately show ?thesis by (simp add: strip_def)
qed

lemma str_int_ne: "str_int i \<noteq> []"
  by (simp add: str_int_def digits_ne)

lemma str_int_last: "last (str_int i) \<in> set ''0123456789''"
proof -
  have "last (digits n) \<in> set ''0123456789''" for n
    using digits_set[of n] digits_ne[of n] last_in_set by blast
  then show ?thesis by (simp add: str_int_def digits_ne)
qed

lemma str_int_hd_not_space: "\<not> is_space (hd (str_int i))"
proof -
  have "hd (digits n) \<in> set ''0123456789''" for n
    using digits_set[of n] digits_ne[of n] hd_in_set by blast
  then have "\<not> is_space (hd (digits n))" for n by (rule digit_not_space)
  then show ?thesis by (simp add: str_int_def is_space_def)
qed

lemma strip_str_int: "strip (str_int i) = str_int i"
  using str_int_ne[of i] str_int_hd_not_space[of i] digit_not_space[OF str_int_last[of i]]
  by (rule strip_id)

lemma last_lower: "s \<noteq> [] \<Longrightarrow> last (lower s) = lower_char (last s)"
  by (simp add: lower_def last_map)

lemma int_not_empty_like: "\<not> is_empty_like py (CInt i)"
proof -
  let ?s = "str_int i"
  have l: "last (lower ?s) \<in> set ''0123456789''"
    using str_int_last[of i] by (simp add: last_lower str_int_ne digit_lower)
  have "lower ?s \<notin> set EMPTY_LIKE_VALUES"
  proof
    assume "lower ?s \<in> set EMPTY_LIKE_VALUES"
    then have "last (lower ?s) \<notin> set ''0123456789'' \<or> lower ?s = []"
      by (auto simp: EMPTY_LIKE_VALUES_def)
    with l show False by (simp add: lower_def str_int_ne)
  qed
  then show ?thesis by (simp add: is_empty_like_def strip_str_int str_int_ne)
qed




section \<open>Step-number coercion\<close>




section \<open>Generic Expected Results\<close>

lemma for_each_split:
  "for_each f (pre @ [x] @ post) = Inr out \<Longrightarrow>
     \<exists>a one b. for_each f pre = Inr a \<and> f x = Inr one \<and> for_each f post = Inr b
       \<and> out = a @ one @ b"
  by (auto simp: for_each_append split: sum.splits)

lemma generic_ne_short: "generic_issue py n e \<noteq> short_issue py n e"
  by (simp add: generic_issue_def short_issue_def make_issue_def)

lemma generic_row_ok:
  assumes "row_get row ''Expected Results'' (CStr '''') = CStr ''OK ''"
  shows "generic_row py (idx, row) =
     (case excel_row_number py idx of
        Inl e \<Rightarrow> Inl e
      | Inr n \<Rightarrow>
          Inr [make_issue (num_val n)
                 (''Expected Results is too generic ('' @ [CHR 0x22] @ ''OK'' @ [CHR 0x22] @ '')'')
                 ''GENERIC_EXPECTED_RESULTS'' ''WARNING'' (Some ''Expected Results'')])"
proof -
  have ne: "\<not> is_empty_like py (CStr ''OK '')"
    by (simp add: is_empty_like_def EMPTY_LIKE_VALUES_def text_eval)
  have nb: "\<not> is_blank_row py row"
    using assms ne by (simp add: is_blank_row_def)
  have n: "normalize_text py (CStr ''OK '') = ''ok''"
    by (simp add: normalize_text_def text_eval)
  have s: "strip ''OK '' = ''OK''" by (simp add: text_eval)
  show ?thesis
    using assms ne nb n s
    by (simp add: generic_row_def generic_issue_def GENERIC_PHRASES_def split: sum.splits)
qed

lemma generic_row_phrase:
  assumes "\<not> is_blank_row py row"
    and "\<not> is_empty_like py (row_get row ''Expected Results'' (CStr ''''))"
    and "normalize_text py (row_get row ''Expected Results'' (CStr '''')) \<in> set GENERIC_PHRASES"
  shows "generic_row py (idx, row) =
     (case excel_row_number py idx of
        Inl e \<Rightarrow> Inl e
      | Inr n \<Rightarrow> Inr [generic_issue py n (row_get row ''Expected Results'' (CStr ''''))])"
  using assms by (simp add: generic_row_def)

lemma generic_row_one:
  assumes "generic_row py (idx, row) = Inr one"
  shows "length one \<le> 1
     \<and> (short_issue py n (row_get row ''Expected Results'' (CStr '''')) \<in> set one \<longrightarrow>
          normalize_text py (row_get row ''Expected Results'' (CStr '''')) \<notin> set GENERIC_PHRASES
          \<and> length (normalize_text py (row_get row ''Expected Results'' (CStr ''''))) \<le> 3)"
proof -
  have "short_issue py n e \<noteq> generic_issue py m e" for m e
    by (simp add: generic_issue_def short_issue_def make_issue_def)
  with assms show ?thesis
    by (auto simp: generic_row_def Let_def split: if_splits sum.splits)
qed

lemma generic_row_total:
  "excel_row_number py idx = Inr n \<Longrightarrow> \<exists>ys. generic_row py (idx, row) = Inr ys"
  by (simp add: generic_row_def Let_def)

text \<open>
  Claim C8. In a table with the Expected Results column, take any row and call the rows
  before and after it \<open>pre\<close> and \<open>post\<close>. Whenever the rule returns, its result is
  the issues of \<open>pre\<close>, then the issues of this row, then the issues of \<open>post\<close>, and:
  if the cell of the row is \<open>"OK "\<close> the row adds exactly one issue, the WARNING of the
  generic-phrase branch quoting \<open>OK\<close>; if its normalised text is a generic phrase it
  adds exactly the generic-phrase issue, also when the text has at most three characters;
  every row adds at most one issue, and a too-short issue only for text that is not a
  generic phrase. The rule returns on every table whose index labels are numbers.
\<close>

theorem generic_text_rule:
  "(has_columns [''Expected Results''] df1 \<and> df_rows df1 = pre1 @ [(idx1, row1)] @ post1
      \<and> row_get row1 ''Expected Results'' (CStr '''') = CStr ''OK ''
      \<and> check_generic_expected_results py df1 = Inr out1 \<longrightarrow>
      (\<exists>a b n. for_each (generic_row py) pre1 = Inr a \<and> for_each (generic_row py) post1 = Inr b
         \<and> excel_row_number py idx1 = Inr n
         \<and> out1 = a @ [make_issue (num_val n)
                 (''Expected Results is too generic ('' @ [CHR 0x22] @ ''OK'' @ [CHR 0x22] @ '')'')
                 ''GENERIC_EXPECTED_RESULTS'' ''WARNING'' (Some ''Expected Results'')] @ b))
   \<and> (has_columns [''Expected Results''] df2 \<and> df_rows df2 = pre2 @ [(idx2, row2)] @ post2
      \<and> \<not> is_blank_row py row2
      \<and> \<not> is_empty_like py (row_get row2 ''Expected Results'' (CStr ''''))
      \<and> normalize_text py (row_get row2 ''Expected Results'' (CStr '''')) \<in> set GENERIC_PHRASES
      \<and> check_generic_expected_results py df2 = Inr out2 \<longrightarrow>
      (\<exists>a b n. for_each (generic_row py) pre2 = Inr a \<and> for_each (generic_row py) post2 = Inr b
         \<and> excel_row_number py idx2 = Inr n
         \<and> out2 = a @ [generic_issue py n (row_get row2 ''Expected Results'' (CStr ''''))] @ b))
   \<and> (has_columns [''Expected Results''] df3 \<and> df_rows df3 = pre3 @ [(idx3, row3)] @ post3
      \<and> check_generic_expected_results py df3 = Inr out3 \<longrightarrow>
      (\<exists>a b one. for_each (generic_row py) pre3 = Inr a \<and> for_each (generic_row py) post3 = Inr b
         \<and> out3 = a @ one @ b \<and> length one \<le> 1
         \<and> (\<forall>n. short_issue py n (row_get row3 ''Expected Results'' (CStr '''')) \<in> set one \<longrightarrow>
               normalize_text py (row_get row3 ''Expected Results'' (CStr '''')) \<notin> set GENERIC_PHRASES
               \<and> length (normalize_text py (row_get row3 ''Expected Results'' (CStr ''''))) \<le> 3)))
   \<and> ((\<forall>p \<in> set (df_rows df4). \<exists>n. excel_row_number py (fst p) = Inr n) \<longrightarrow>
      (\<exists>out. check_generic_expected_results py df4 = Inr out))"
proof (intro conjI impI)
  assume a: "has_columns [''Expected Results''] df1 \<and> df_rows df1 = pre1 @ [(idx1, row1)] @ post1
      \<and> row_get row1 ''Expected Results'' (CStr '''') = CStr ''OK ''
      \<and> check_generic_expected_results py df1 = Inr out1"
  then have "has_columns [''Expected Results''] df1" "df_rows df1 = pre1 @ [(idx1, row1)] @ post1"
    "check_generic_expected_results py df1 = Inr out1" by simp_all
  then have "for_each (generic_row py) (pre1 @ [(idx1, row1)] @ post1) = Inr out1"
    by (simp add: check_generic_expected_results_def iterrows_def)
  from for_each_split[OF this] obtain a' one b' where s: "for_each (generic_row py) pre1 = Inr a'"
    "generic_row py (idx1, row1) = Inr one" "for_each (generic_row py) post1 = Inr b'"
    "out1 = a' @ one @ b'" by blast
  from a have ok: "row_get row1 ''Expected Results'' (CStr '''') = CStr ''OK ''" by simp
  from s(2) generic_row_ok[OF ok, of py idx1] obtain n where "excel_row_number py idx1 = Inr n"
    and "one = [make_issue (num_val n)
                 (''Expected Results is too generic ('' @ [CHR 0x22] @ ''OK'' @ [CHR 0x22] @ '')'')
                 ''GENERIC_EXPECTED_RESULTS'' ''WARNING'' (Some ''Expected Results'')]"
    by (auto split: sum.splits)
  with s show "\<exists>a b n. for_each (generic_row py) pre1 = Inr a \<and> for_each (generic_row py) post1 = Inr b
         \<and> excel_row_number py idx1 = Inr n
         \<and> out1 = a @ [make_issue (num_val n)
                 (''Expected Results is too generic ('' @ [CHR 0x22] @ ''OK'' @ [CHR 0x22] @ '')'')
                 ''GENERIC_EXPECTED_RESULTS'' ''WARNING'' (Some ''Expected Results'')] @ b"
    by blast
next
  assume a: "has_columns [''Expected Results''] df2 \<and> df_rows df2 = pre2 @ [(idx2, row2)] @ post2
      \<and> \<not> is_blank_row py row2
      \<and> \<not> is_empty_like py (row_get row2 ''Expected Results'' (CStr ''''))
      \<and> normalize_text py (row_get row2 ''Expected Results'' (CStr '''')) \<in> set GENERIC_PHRASES
      \<and> check_generic_expected_results py df2 = Inr out2"
  then have "has_columns [''Expected Results''] df2" "df_rows df2 = pre2 @ [(idx2, row2)] @ post2"
    "check_generic_expected_results py df2 = Inr out2" by simp_all
  then have "for_each (generic_row py) (pre2 @ [(idx2, row2)] @ post2) = Inr out2"
    by (simp add: check_generic_expected_results_def iterrows_def)
  from for_each_split[OF this] obtain a' one b' where s: "for_each (generic_row py) pre2 = Inr a'"
    "generic_row py (idx2, row2) = Inr one" "for_each (generic_row py) post2 = Inr b'"
    "out2 = a' @ one @ b'" by blast
  from a have g: "generic_row py (idx2, row2) =
     (case excel_row_number py idx2 of
        Inl e \<Rightarrow> Inl e
      | Inr n \<Rightarrow> Inr [generic_issue py n (row_get row2 ''Expected Results'' (CStr ''''))])"
    by (intro generic_row_phrase) simp_all
  from s(2) g obtain n where "excel_row_number py idx2 = Inr n"
    and "one = [generic_issue py n (row_get row2 ''Expected Results'' (CStr ''''))]"
    by (auto split: sum.splits)
  with s show "\<exists>a b n. for_each (generic_row py) pre2 = Inr a \<and> for_each (generic_row py) post2 = Inr b
         \<and> excel_row_number py idx2 = Inr n
         \<and> out2 = a @ [generic_issue py n (row_get row2 ''Expected Results'' (CStr ''''))] @ b"
    by blast
next
  assume a: "has_columns [''Expected Results''] df3 \<and> df_rows df3 = pre3 @ [(idx3, row3)] @ post3
      \<and> check_generic_expected_results py df3 = Inr out3"
  then have "has_columns [''Expected Results''] df3" "df_rows df3 = pre3 @ [(idx3, row3)] @ post3"
    "check_generic_expected_results py df3 = Inr out3" by simp_all
  then have "for_each (generic_row py) (pre3 @ [(idx3, row3)] @ post3) = Inr out3"
    by (simp add: check_generic_expected_results_def iterrows_def)
  from for_each_split[OF this] obtain a' one b' where s: "for_each (generic_row py) pre3 = Inr a'"
    "generic_row py (idx3, row3) = Inr one" "for_each (generic_row py) post3 = Inr b'"
    "out3 = a' @ one @ b'" by blast
  from generic_row_one[OF s(2)] s
  show "\<exists>a b one. for_each (generic_row py) pre3 = Inr a \<and> for_each (generic_row py) post3 = Inr b
         \<and> out3 = a @ one @ b \<and> length one \<le> 1
         \<and> (\<forall>n. short_issue py n (row_get row3 ''Expected Results'' (CStr '''')) \<in> set one \<longrightarrow>
               normalize_text py (row_get row3 ''Expected Results'' (CStr '''')) \<notin> set GENERIC_PHRASES
               \<and> length (normalize_text py (row_get row3 ''Expected Results'' (CStr ''''))) \<le> 3)"
    by blast
next
  assume a: "\<forall>p \<in> set (df_rows df4). \<exists>n. excel_row_number py (fst p) = Inr n"
  have "\<exists>out. for_each (generic_row py) (df_rows df4) = Inr out"
  proof (rule for_each_total)
    fix p assume "p \<in> set (df_rows df4)"
    with a obtain n where "excel_row_number py (fst p) = Inr n" by blast
    from generic_row_total[OF this, of "snd p"] show "\<exists>ys. generic_row py p = Inr ys" by simp
  qed
  then show "\<exists>out. check_generic_expected_results py df4 = Inr out"
    by (simp add: check_generic_expected_results_def iterrows_def)
qed

lemma generic_table_result:
  "check_generic_expected_results sample_py generic_table =
     Inr [make_issue (VInt 3)
            (''Expected Results is too generic ('' @ [CHR 0x22] @ ''OK'' @ [CHR 0x22] @ '')'')
            ''GENERIC_EXPECTED_RESULTS'' ''WARNING'' (Some ''Expected Results''),
          make_issue (VInt 4)
            (''Expected Results is too generic ('' @ [CHR 0x22] @ ''ok'' @ [CHR 0x22] @ '')'')
            ''GENERIC_EXPECTED_RESULTS'' ''WARNING'' (Some ''Expected Results''),
          make_issue (VInt 5)
            (''Expected Results is too short ('' @ [CHR 0x22] @ ''No.'' @ [CHR 0x22] @ '')'')
            ''GENERIC_EXPECTED_RESULTS'' ''WARNING'' (Some ''Expected Results'')]"
  by (simp add: check_generic_expected_results_def generic_table_def generic_row_def
      generic_issue_def short_issue_def normalize_text_def GENERIC_PHRASES_def row_eval text_eval)

theorem generic_text_rule_witness:
  "has_columns [''Expected Results''] generic_table
   \<and> df_rows generic_table =
        [df_rows generic_table ! 0] @ [(LInt 1, snd (df_rows generic_table ! 1))]
        @ [df_rows generic_table ! 2, df_rows generic_table ! 3]
   \<and> row_get (snd (df_rows generic_table ! 1)) ''Expected Results'' (CStr []) = CStr ''OK ''
   \<and> normalize_text sample_py (row_get (snd (df_rows generic_table ! 2)) ''Expected Results'' (CStr []))
        \<in> set GENERIC_PHRASES
   \<and> length (normalize_text sample_py
        (row_get (snd (df_rows generic_table ! 2)) ''Expected Results'' (CStr []))) \<le> 3
   \<and> check_generic_expected_results sample_py generic_table =
     Inr [make_issue (VInt 3)
            (''Expected Results is too generic ('' @ [CHR 0x22] @ ''OK'' @ [CHR 0x22] @ '')'')
            ''GENERIC_EXPECTED_RESULTS'' ''WARNING'' (Some ''Expected Results''),
          make_issue (VInt 4)
            (''Expected Results is too generic ('' @ [CHR 0x22] @ ''ok'' @ [CHR 0x22] @ '')'')
            ''GENERIC_EXPECTED_RESULTS'' ''WARNING'' (Some ''Expected Results''),
          make_issue (VInt 5)
            (''Expected Results is too short ('' @ [CHR 0x22] @ ''No.'' @ [CHR 0x22] @ '')'')
            ''GENERIC_EXPECTED_RESULTS'' ''WARNING'' (Some ''Expected Results'')]"
proof -
  have h1: "has_columns [''Expected Results''] generic_table"
    by (simp add: has_columns_def generic_table_def)
  have h2: "df_rows generic_table =
        [df_rows generic_table ! 0] @ [(LInt 1, snd (df_rows generic_table ! 1))]
        @ [df_rows generic_table ! 2, df_rows generic_table ! 3]"
    by (simp add: generic_table_def)
  have h3: "row_get (snd (df_rows generic_table ! 1)) ''Expected Results'' (CStr []) = CStr ''OK ''"
    by (simp add: generic_table_def row_get_def)
  have h4: "df_rows generic_table =
        [df_rows generic_table ! 0, df_rows generic_table ! 1]
        @ [(LInt 2, snd (df_rows generic_table ! 2))] @ [df_rows generic_table ! 3]"
    by (simp add: generic_table_def)
  have h5: "\<not> is_blank_row sample_py (snd (df_rows generic_table ! 2))"
    "\<not> is_empty_like sample_py (row_get (snd (df_rows generic_table ! 2)) ''Expected Results'' (CStr []))"
    "normalize_text sample_py (row_get (snd (df_rows generic_table ! 2)) ''Expected Results'' (CStr []))
        \<in> set GENERIC_PHRASES"
    "length (normalize_text sample_py
        (row_get (snd (df_rows generic_table ! 2)) ''Expected Results'' (CStr []))) \<le> 3"
    by (simp_all add: generic_table_def normalize_text_def GENERIC_PHRASES_def row_eval text_eval)
  have h6: "\<forall>p \<in> set (df_rows generic_table). \<exists>n. excel_row_number sample_py (fst p) = Inr n"
    by (simp add: generic_table_def)
  note t = generic_text_rule[where py = sample_py and ?df1.0 = generic_table
      and ?pre1.0 = "[df_rows generic_table ! 0]" and ?idx1.0 = "LInt 1"
      and ?row1.0 = "snd (df_rows generic_table ! 1)"
      and ?post1.0 = "[df_rows generic_table ! 2, df_rows generic_table ! 3]"
      and ?df2.0 = generic_table
      and ?pre2.0 = "[df_rows generic_table ! 0, df_rows generic_table ! 1]" and ?idx2.0 = "LInt 2"
      and ?row2.0 = "snd (df_rows generic_table ! 2)"
      and ?post2.0 = "[df_rows generic_table ! 3]"
      and ?df3.0 = generic_table
      and ?pre3.0 = "[df_rows generic_table ! 0, df_rows generic_table ! 1]" and ?idx3.0 = "LInt 2"
      and ?row3.0 = "snd (df_rows generic_table ! 2)"
      and ?post3.0 = "[df_rows generic_table ! 3]"
      and ?df4.0 = generic_table]
  from t h6 have "\<exists>out. check_generic_expected_results sample_py generic_table = Inr out"
    by blast
  with h1 h2 h3 h5 generic_table_result show ?thesis by simp
qed

section \<open>Schema short-circuit\<close>

lemma missing_columns_issue:
  "\<not> has_columns [''Action'', ''Expected Results''] df \<Longrightarrow>
   check_missing_columns df =
     [make_issue VNone
        (''Missing required columns: '' @
           (if ''Action'' \<notin> set (df_columns df) \<and> ''Expected Results'' \<notin> set (df_columns df)
            then ''Action, Expected Results''
            else if ''Action'' \<notin> set (df_columns df) then ''Action''
            else ''Expected Results''))
        ''MISSING_COLUMNS'' ''FAIL'' None]"
  by (auto simp add: check_missing_columns_def has_columns_def sorted_by_def Let_def)

text \<open>
  Claim C2. For every table that lacks Action or Expected Results, whatever its rows and
  index labels hold, the scan returns, and its issues are exactly one dictionary: rule
  MISSING_COLUMNS, severity FAIL, row \<open>None\<close>, and a message that lists the missing names
  joined by a comma and a space in alphabetical order. No other rule adds an issue.
\<close>

theorem scan_schema_short_circuit:
  "\<not> has_columns [''Action'', ''Expected Results''] df \<Longrightarrow>
   scan_df c py df =
     Inr \<lparr>sr_rows = length (df_rows df), sr_columns = df_columns df,
          sr_errors =
            [[(''row'', VNone),
              (''message'', VStr (''Missing required columns: '' @
                 (if ''Action'' \<notin> set (df_columns df) \<and> ''Expected Results'' \<notin> set (df_columns df)
                  then ''Action, Expected Results''
                  else if ''Action'' \<notin> set (df_columns df) then ''Action''
                  else ''Expected Results''))),
              (''rule'', VStr ''MISSING_COLUMNS''),
              (''severity'', VStr ''FAIL'')]]\<rparr>"
proof -
  assume a: "\<not> has_columns [''Action'', ''Expected Results''] df"
  note m = missing_columns_issue[OF a]
  have "check_missing_columns df \<noteq> []" by (simp add: m)
  then have "scan_df c py df =
      Inr \<lparr>sr_rows = length (df_rows df), sr_columns = df_columns df,
           sr_errors = check_missing_columns df\<rparr>"
    by (simp add: scan_df_def Let_def)
  then show ?thesis by (simp add: m make_issue_def)
qed

theorem scan_schema_short_circuit_witness:
  "\<not> has_columns [''Action'', ''Expected Results''] junk_table
   \<and> scan_df cfg sample_py junk_table =
     Inr \<lparr>sr_rows = 2, sr_columns = [''Test Case ID'', ''Expected Results''],
          sr_errors =
            [[(''row'', VNone),
              (''message'', VStr ''Missing required columns: Action''),
              (''rule'', VStr ''MISSING_COLUMNS''),
              (''severity'', VStr ''FAIL'')]]\<rparr>"
proof -
  have h: "\<not> has_columns [''Action'', ''Expected Results''] junk_table"
    by (simp add: has_columns_def junk_table_def)
  show ?thesis
    using h scan_schema_short_circuit[OF h, of cfg sample_py]
    by (simp add: junk_table_def)
qed

section \<open>Core steps on a blank row\<close>

lemma upt8: "[0..<8] = [0, 1, 2, 3, 4, 5, 6, 7::nat]"
  by code_simp

lemma bft_steps: "build_steps py blank_first_table =
   \<lparr>step_action = '''', step_expected = ''''\<rparr> #
   map (\<lambda>s. \<lparr>step_action = action s, step_expected = expected s\<rparr>) (tl CORE_STEPS)"
  by (simp add: build_steps_def blank_first_table_def iterrows_def row_get_def CORE_STEPS_def)

lemma bft_first: "df_rows blank_first_table ! 0 =
    (LInt 0, [(''Action'', CFloat NaN), (''Expected Results'', CFloat NaN)])"
  by (simp add: blank_first_table_def)

lemma bft_blank: "is_blank_row py (snd (df_rows blank_first_table ! 0))"
  by (simp add: bft_first row_eval text_eval)

lemma bft_count: "count_anchor_matches cfg (build_steps py blank_first_table) = 2"
  unfolding bft_steps
  by (simp add: count_anchor_matches_def anchor_step_map_def cfg_def CORE_STEPS_def text_eval)

lemma bft_enforce: "enforce_core_steps cfg (build_steps py blank_first_table) =
     [core_issue 2 (''Core Step 1 Action mismatch. Expected: '' @ [CHR 0x22]
        @ ''Launch CAPRI application from desktop'' @ [CHR 0x22] @ '' | Found: ''
        @ [CHR 0x22, CHR 0x22] @ ''.''),
      core_issue 2 (''Core Step 1 Expected Results mismatch. Expected: '' @ [CHR 0x22]
        @ ''Windows Security Certificate Selection window pop-up displays.'' @ [CHR 0x22]
        @ '' | Found: '' @ [CHR 0x22, CHR 0x22] @ ''.'')]"
  unfolding bft_steps
  by (simp add: enforce_core_steps_def enforce_step_def cfg_def CORE_STEPS_def Let_def
     text_eval upt8)

lemma bft_check: "check_core_steps_enforcement cfg py blank_first_table =
   enforce_core_steps cfg (build_steps py blank_first_table)"
proof -
  have "length (build_steps py blank_first_table) = 8"
    by (simp add: bft_steps CORE_STEPS_def)
  moreover have "Max (set (map fst (anchor_step_map cfg))) = 8"
    by (simp add: anchor_step_map_def)
  moreover have "ENABLE_CORE_STEPS cfg" "CORE_ANCHOR_MIN_MATCHES cfg = 2" by (simp_all add: cfg_def)
  moreover have "df_columns blank_first_table = [''Action'', ''Expected Results'']"
    by (simp add: blank_first_table_def)
  ultimately show ?thesis
    by (simp add: check_core_steps_enforcement_def bft_count Let_def)
qed

text \<open>
  Claim C10. There is a table, the core-steps template with its first row blank, on which
  two anchors match, enforcement runs under the shipped configuration, and the blank first
  row gets the two core-steps WARNING issues (Action and Expected Results mismatch) at
  Excel row 2; the blank-row rule reports that row and the required-fields rule skips it.
\<close>

theorem core_steps_flag_blank_row:
  "\<exists>df. is_blank_row py (snd (df_rows df ! 0))
     \<and> blank_rows_row py (df_rows df ! 0) =
         Inr [make_issue (VInt 2) ''Blank row'' ''BLANK_ROW'' ''WARNING'' None]
     \<and> required_fields_row py (df_rows df ! 0) = Inr []
     \<and> 2 \<le> count_anchor_matches cfg (build_steps py df)
     \<and> check_core_steps_enforcement cfg py df =
         [[(''severity'', VStr ''WARNING''), (''excel_row'', VInt 2),
           (''message'', VStr (''Core Step 1 Action mismatch. Expected: '' @ [CHR 0x22]
              @ ''Launch CAPRI application from desktop'' @ [CHR 0x22] @ '' | Found: ''
              @ [CHR 0x22, CHR 0x22] @ ''.''))],
          [(''severity'', VStr ''WARNING''), (''excel_row'', VInt 2),
           (''message'', VStr (''Core Step 1 Expected Results mismatch. Expected: '' @ [CHR 0x22]
              @ ''Windows Security Certificate Selection window pop-up displays.'' @ [CHR 0x22]
              @ '' | Found: '' @ [CHR 0x22, CHR 0x22] @ ''.''))]]"
proof (rule exI[of _ blank_first_table], intro conjI)
  show "is_blank_row py (snd (df_rows blank_first_table ! 0))" by (rule bft_blank)
  show "blank_rows_row py (df_rows blank_first_table ! 0) =
         Inr [make_issue (VInt 2) ''Blank row'' ''BLANK_ROW'' ''WARNING'' None]"
    using bft_blank[of py] by (simp add: blank_rows_row_def bft_first)
  show "required_fields_row py (df_rows blank_first_table ! 0) = Inr []"
    using bft_blank[of py] by (simp add: required_fields_row_def bft_first)
  show "2 \<le> count_anchor_matches cfg (build_steps py blank_first_table)"
    by (simp add: bft_count)
  show "check_core_steps_enforcement cfg py blank_first_table =
         [[(''severity'', VStr ''WARNING''), (''excel_row'', VInt 2),
           (''message'', VStr (''Core Step 1 Action mismatch. Expected: '' @ [CHR 0x22]
              @ ''Launch CAPRI application from desktop'' @ [CHR 0x22] @ '' | Found: ''
              @ [CHR 0x22, CHR 0x22] @ ''.''))],
          [(''severity'', VStr ''WARNING''), (''excel_row'', VInt 2),
           (''message'', VStr (''Core Step 1 Expected Results mismatch. Expected: '' @ [CHR 0x22]
              @ ''Windows Security Certificate Selection window pop-up displays.'' @ [CHR 0x22]
              @ '' | Found: '' @ [CHR 0x22, CHR 0x22] @ ''.''))]]"
    by (simp add: bft_check bft_enforce core_issue_def)
qed

theorem core_steps_flag_blank_row_witness:
  "\<exists>df. is_blank_row sample_py (snd (df_rows df ! 0))
     \<and> 2 \<le> count_anchor_matches cfg (build_steps sample_py df)
     \<and> length (check_core_steps_enforcement cfg sample_py df) = 2"
proof -
  from core_steps_flag_blank_row[of sample_py] obtain df where
    "is_blank_row sample_py (snd (df_rows df ! 0))"
    "2 \<le> count_anchor_matches cfg (build_steps sample_py df)"
    "length (check_core_steps_enforcement cfg sample_py df) = 2"
    by auto
  then show ?thesis by blast
qed

section \<open>The loop over the rows of a group\<close>

lemma setdefault_append_ne: "setdefault_append m k r \<noteq> []"
  by (cases m) (auto split: if_splits)

lemma step_row_Inr:
  assumes "step_row py tc st (idx, r) = Inr st'"
  shows "\<exists>n. excel_row_number py idx = Inr n
     \<and> steps_in_order st' = steps_in_order st @
          (case to_int_step py (row_get r ''Step #'' (CStr '''')) of
             None \<Rightarrow> [] | Some s \<Rightarrow> [(n, s)])
     \<and> (\<forall>e \<in> set (g_errors st'). e \<in> set (g_errors st)
           \<or> (\<exists>m. e = step_error n (''Step # is empty (Test Case ID: '' @ m)
                 \<or> e = step_error n (''Step # is not a number: '' @ m)))
     \<and> ((steps_in_order st \<noteq> [] \<longrightarrow> step_to_rows st \<noteq> [] \<and> group_rows st \<noteq> []) \<longrightarrow>
         (steps_in_order st' \<noteq> [] \<longrightarrow> step_to_rows st' \<noteq> [] \<and> group_rows st' \<noteq> []))"
  using assms
  by (auto simp: step_row_def Let_def setdefault_append_ne split: sum.splits option.splits if_splits)

lemma step_row_total:
  "excel_row_number py idx = Inr n \<Longrightarrow> \<exists>st'. step_row py tc st (idx, r) = Inr st'"
  by (simp add: step_row_def)

lemma group_loop_sio:
  "group_loop py tc st grp = Inr st' \<Longrightarrow>
   steps_in_order st' = steps_in_order st @
     concat (map (\<lambda>(idx, r). case to_int_step py (row_get r ''Step #'' (CStr '''')) of
                     None \<Rightarrow> []
                   | Some s \<Rightarrow> (case excel_row_number py idx of Inl e \<Rightarrow> [] | Inr n \<Rightarrow> [(n, s)]))
               grp)"
proof (induction grp arbitrary: st)
  case Nil
  then show ?case by simp
next
  case (Cons p grp)
  obtain idx r where p: "p = (idx, r)" by (cases p)
  from Cons.prems p obtain st1 where s1: "step_row py tc st (idx, r) = Inr st1"
    and l: "group_loop py tc st1 grp = Inr st'" by (auto split: sum.splits)
  from step_row_Inr[OF s1] obtain n where n: "excel_row_number py idx = Inr n"
    and s: "steps_in_order st1 = steps_in_order st @
          (case to_int_step py (row_get r ''Step #'' (CStr '''')) of
             None \<Rightarrow> [] | Some s \<Rightarrow> [(n, s)])" by blast
  show ?case by (simp add: Cons.IH[OF l] p s n split: option.splits)
qed

lemma group_loop_errors:
  "group_loop py tc st grp = Inr st' \<Longrightarrow> e \<in> set (g_errors st') \<Longrightarrow>
     e \<in> set (g_errors st)
     \<or> (\<exists>n m. e = step_error n (''Step # is empty (Test Case ID: '' @ m)
              \<or> e = step_error n (''Step # is not a number: '' @ m))"
proof (induction grp arbitrary: st)
  case Nil
  then show ?case by simp
next
  case (Cons p grp)
  obtain idx r where p: "p = (idx, r)" by (cases p)
  from Cons.prems(1) p obtain st1 where s1: "step_row py tc st (idx, r) = Inr st1"
    and l: "group_loop py tc st1 grp = Inr st'" by (auto split: sum.splits)
  from Cons.IH[OF l Cons.prems(2)] step_row_Inr[OF s1] show ?case by blast
qed

lemma group_state_nonempty:
  "group_loop py tc st grp = Inr st' \<Longrightarrow>
   (steps_in_order st \<noteq> [] \<longrightarrow> step_to_rows st \<noteq> [] \<and> group_rows st \<noteq> []) \<Longrightarrow>
   steps_in_order st' \<noteq> [] \<longrightarrow> step_to_rows st' \<noteq> [] \<and> group_rows st' \<noteq> []"
proof (induction grp arbitrary: st)
  case Nil
  then show ?case by simp
next
  case (Cons p grp)
  obtain idx r where p: "p = (idx, r)" by (cases p)
  from Cons.prems(1) p obtain st1 where s1: "step_row py tc st (idx, r) = Inr st1"
    and l: "group_loop py tc st1 grp = Inr st'" by (auto split: sum.splits)
  from step_row_Inr[OF s1] Cons.prems(2)
  have "steps_in_order st1 \<noteq> [] \<longrightarrow> step_to_rows st1 \<noteq> [] \<and> group_rows st1 \<noteq> []" by blast
  from Cons.IH[OF l this] show ?case .
qed

lemma group_loop_total:
  "(\<And>p. p \<in> set grp \<Longrightarrow> \<exists>n. excel_row_number py (fst p) = Inr n) \<Longrightarrow>
   \<exists>st'. group_loop py tc st grp = Inr st'"
proof (induction grp arbitrary: st)
  case Nil
  show ?case by simp
next
  case (Cons p grp)
  from Cons.prems[of p] obtain n where "excel_row_number py (fst p) = Inr n" by auto
  from step_row_total[OF this, of tc st "snd p"] obtain st1 where "step_row py tc st p = Inr st1"
    by auto
  moreover from Cons.IH[of st1] Cons.prems obtain st' where "group_loop py tc st1 grp = Inr st'"
    by auto
  ultimately show ?case by simp
qed

lemma py_max_total: "xs \<noteq> [] \<Longrightarrow> \<exists>m. py_max xs = Inr m"
  by (cases xs) auto

lemma py_min_total: "xs \<noteq> [] \<Longrightarrow> \<exists>m. py_min xs = Inr m"
  by (cases xs) auto

lemma missing_errors_total:
  assumes "step_to_rows st \<noteq> []" "group_rows st \<noteq> []"
  shows "\<exists>m. missing_errors py tc st = Inr m"
proof -
  have "sort (map fst (step_to_rows st)) \<noteq> []" using assms(1) by (metis length_0_conv length_map length_sort)
  from py_max_total[OF this] py_min_total[OF assms(2)] show ?thesis
    by (auto simp: missing_errors_def Let_def)
qed

lemma duplicate_errors_form:
  "e \<in> set (duplicate_errors py tc items) \<Longrightarrow> \<exists>n m. e = step_error n (''Duplicate Step # '' @ m)"
  by (auto simp: duplicate_errors_def split: if_splits)

lemma missing_errors_form:
  "missing_errors py tc st = Inr out \<Longrightarrow> e \<in> set out \<Longrightarrow>
     map_of e ''error'' \<noteq> Some (VStr out_of_order_message)"
  by (auto simp: missing_errors_def Let_def step_error_def out_of_order_message_def
      split: if_splits sum.splits)

lemma order_errors_form:
  "e \<in> set (order_errors sio) \<Longrightarrow> \<exists>n. e = step_error n out_of_order_message"
  by (induction sio rule: order_errors.induct) (auto split: if_splits)

lemma order_errors_length: "length (order_errors sio) \<le> 1"
  by (induction sio rule: order_errors.induct) auto

lemma order_errors_sorted: "sorted (map snd sio) \<Longrightarrow> order_errors sio = []"
  by (induction sio rule: order_errors.induct) auto

lemma order_errors_first_decrease:
  "0 < i \<Longrightarrow> i < length sio \<Longrightarrow> snd (sio ! i) < snd (sio ! (i - 1)) \<Longrightarrow>
   (\<forall>j. 0 < j \<and> j < i \<longrightarrow> snd (sio ! (j - 1)) \<le> snd (sio ! j)) \<Longrightarrow>
   order_errors sio = [step_error (fst (sio ! i)) out_of_order_message]"
proof (induction sio arbitrary: i rule: order_errors.induct)
  case (1 a b rest)
  show ?case
  proof (cases "i = 1")
    case True
    with 1(3,4) show ?thesis by simp
  next
    case False
    with 1(2) have i2: "2 \<le> i" by simp
    from 1(5) i2 have ab: "snd a \<le> snd b" by (auto dest: spec[of _ 1])
    have a1: "0 < i - 1" using i2 by simp
    have a2: "i - 1 < length (b # rest)" using 1(3) by simp
    have a3: "snd ((b # rest) ! (i - 1)) < snd ((b # rest) ! (i - 1 - 1))"
      using 1(4) i2 by (cases i) (auto simp: nth_Cons')
    have a4: "\<forall>j. 0 < j \<and> j < i - 1 \<longrightarrow> snd ((b # rest) ! (j - 1)) \<le> snd ((b # rest) ! j)"
    proof (intro allI impI)
      fix j assume j: "0 < j \<and> j < i - 1"
      then have "0 < Suc j \<and> Suc j < i" by auto
      with 1(5) have "snd ((a # b # rest) ! (Suc j - 1)) \<le> snd ((a # b # rest) ! Suc j)" by blast
      with j show "snd ((b # rest) ! (j - 1)) \<le> snd ((b # rest) ! j)" by (cases j) auto
    qed
    have "order_errors (b # rest) = [step_error (fst ((b # rest) ! (i - 1))) out_of_order_message]"
      using ab 1(1)[OF _ a1 a2 a3 a4] by simp
    with ab i2 show ?thesis by (cases i) auto
  qed
qed simp_all

lemma filter_none: "(\<And>e. e \<in> set xs \<Longrightarrow> \<not> P e) \<Longrightarrow> filter P xs = []"
  by (induction xs) auto

lemma filter_all: "(\<And>e. e \<in> set xs \<Longrightarrow> P e) \<Longrightarrow> filter P xs = xs"
  by (induction xs) auto

lemma group_errors_total:
  assumes "\<And>p. p \<in> set grp \<Longrightarrow> \<exists>n. excel_row_number py (fst p) = Inr n"
  shows "\<exists>out. group_errors py tc grp = Inr out"
proof -
  let ?init = "\<lparr>g_errors = [], steps_in_order = [], step_to_rows = [], group_rows = []\<rparr>"
  from group_loop_total[of grp py tc ?init] assms obtain st
    where st: "group_loop py tc ?init grp = Inr st" by blast
  show ?thesis
  proof (cases "steps_in_order st = []")
    case True
    with st show ?thesis by (simp add: group_errors_def)
  next
    case False
    with group_state_nonempty[OF st] have "step_to_rows st \<noteq> []" "group_rows st \<noteq> []" by simp_all
    from missing_errors_total[OF this, of py tc] obtain m where "missing_errors py tc st = Inr m" ..
    with st False show ?thesis by (simp add: group_errors_def)
  qed
qed

lemma group_errors_out_of_order:
  assumes "group_errors py tc grp = Inr out"
  shows "filter (\<lambda>e. map_of e ''error'' = Some (VStr out_of_order_message)) out
     = order_errors (concat (map (\<lambda>(idx, r).
          case to_int_step py (row_get r ''Step #'' (CStr '''')) of
            None \<Rightarrow> []
          | Some s \<Rightarrow> (case excel_row_number py idx of Inl e \<Rightarrow> [] | Inr n \<Rightarrow> [(n, s)])) grp))"
proof -
  let ?P = "\<lambda>e. map_of e ''error'' = Some (VStr out_of_order_message)"
  let ?init = "\<lparr>g_errors = [], steps_in_order = [], step_to_rows = [], group_rows = []\<rparr>"
  define sio where "sio = concat (map (\<lambda>(idx, r).
          case to_int_step py (row_get r ''Step #'' (CStr '''')) of
            None \<Rightarrow> []
          | Some s \<Rightarrow> (case excel_row_number py idx of Inl e \<Rightarrow> [] | Inr n \<Rightarrow> [(n, s)])) grp)"
  from assms obtain st where st: "group_loop py tc ?init grp = Inr st"
    by (auto simp: group_errors_def split: sum.splits)
  have sio: "steps_in_order st = sio" using group_loop_sio[OF st] by (simp add: sio_def)
  have f1: "filter ?P (g_errors st) = []"
  proof (rule filter_none)
    fix e assume "e \<in> set (g_errors st)"
    from group_loop_errors[OF st this] show "\<not> ?P e"
      by (auto simp: step_error_def out_of_order_message_def)
  qed
  have f2: "filter ?P (duplicate_errors py tc (step_to_rows st)) = []"
  proof (rule filter_none)
    fix e assume "e \<in> set (duplicate_errors py tc (step_to_rows st))"
    from duplicate_errors_form[OF this] show "\<not> ?P e"
      by (auto simp: step_error_def out_of_order_message_def)
  qed
  have f4: "filter ?P (order_errors sio) = order_errors sio"
  proof (rule filter_all)
    fix e assume "e \<in> set (order_errors sio)"
    from order_errors_form[OF this] show "?P e" by (auto simp: step_error_def)
  qed
  have "filter ?P out = order_errors sio"
  proof (cases "sio = []")
    case True
    with assms st sio have "out = g_errors st" by (simp add: group_errors_def)
    with f1 True show ?thesis by simp
  next
    case False
    with assms st sio obtain m where m: "missing_errors py tc st = Inr m"
      and o: "out = g_errors st @ duplicate_errors py tc (step_to_rows st) @ m @ order_errors sio"
      by (auto simp: group_errors_def split: sum.splits)
    have f3: "filter ?P m = []"
    proof (rule filter_none)
      fix e assume "e \<in> set m"
      from missing_errors_form[OF m this] show "\<not> ?P e" .
    qed
    show ?thesis by (simp add: o f1 f2 f3 f4)
  qed
  then show ?thesis by (simp only: sio_def)
qed

lemma tc1_not_empty: "\<not> is_empty_like py (CStr ''TC1'')"
  by (simp add: is_empty_like_def EMPTY_LIKE_VALUES_def text_eval)

lemma not_blank_tc: "map_of r ''Test Case ID'' = Some (CStr ''TC1'') \<Longrightarrow> \<not> is_blank_row py r"
  using tc1_not_empty[of py] by (simp add: is_blank_row_def row_get_def)

lemma step_row_int:
  "map_of r ''Step #'' = Some (CInt n) \<Longrightarrow>
   step_row py tc st (LInt k, r) =
     Inr (st\<lparr>group_rows := group_rows st @ [NInt (k + 2)],
        steps_in_order := steps_in_order st @ [(NInt (k + 2), n)],
        step_to_rows := setdefault_append (step_to_rows st) n (NInt (k + 2))\<rparr>)"
  by (simp add: step_row_def row_get_def to_int_step_def int_not_empty_like Let_def)

section \<open>Step numbering on a whole table\<close>

lemma for_each_filter:
  "for_each f xs = Inr out \<Longrightarrow>
   (\<And>x ys. x \<in> set xs \<Longrightarrow> f x = Inr ys \<Longrightarrow> filter P ys = g x) \<Longrightarrow>
   filter P out = concat (map g xs)"
proof (induction xs arbitrary: out)
  case Nil
  then show ?case by simp
next
  case (Cons x xs)
  from Cons.prems(1) obtain a b where a: "f x = Inr a" and b: "for_each f xs = Inr b"
    and o: "out = a @ b" by (auto split: sum.splits)
  have "filter P a = g x" using Cons.prems(2)[of x a] a by simp
  moreover have "filter P b = concat (map g xs)" using Cons.IH[OF b] Cons.prems(2) by simp
  ultimately show ?case using o by simp
qed

lemma groupby_rows:
  "(tc, grp) \<in> set (groupby name working) \<Longrightarrow> set grp \<subseteq> set working"
  by (auto simp: groupby_def Let_def)

lemma groupby_Nil: "groupby name [] = []"
  by (simp add: groupby_def sorted_by_def)

lemma working_rows_subset: "set (working_rows py df) \<subseteq> set (df_rows df)"
  by (auto simp: working_rows_def iterrows_def)

lemma check_step_numbering_no_rows:
  "has_columns [''Test Case ID'', ''Step #''] df \<Longrightarrow> df_rows df = [] \<Longrightarrow>
   check_step_numbering py df = Inl (KeyError ''Test Case ID'')"
  by (simp add: check_step_numbering_def iterrows_def)

lemma check_step_numbering_total:
  assumes "\<And>p. p \<in> set (df_rows df) \<Longrightarrow> \<exists>n. excel_row_number py (fst p) = Inr n"
    and "df_rows df \<noteq> []"
  shows "\<exists>out. check_step_numbering py df = Inr out"
proof -
  have "\<exists>out. for_each (\<lambda>(tc_id, grp). group_errors py tc_id grp)
                 (groupby ''Test Case ID'' (working_rows py df)) = Inr out"
  proof (rule for_each_total)
    fix x assume x: "x \<in> set (groupby ''Test Case ID'' (working_rows py df))"
    obtain tc grp where tg: "x = (tc, grp)" by (cases x)
    from x tg groupby_rows working_rows_subset have "set grp \<subseteq> set (df_rows df)" by fast
    with assms(1) have "\<And>p. p \<in> set grp \<Longrightarrow> \<exists>n. excel_row_number py (fst p) = Inr n" by blast
    from group_errors_total[OF this] tg
    show "\<exists>ys. (case x of (tc_id, grp) \<Rightarrow> group_errors py tc_id grp) = Inr ys" by simp
  qed
  with assms(2) show ?thesis by (auto simp: check_step_numbering_def Let_def iterrows_def)
qed

lemma check_step_numbering_out_of_order:
  assumes "check_step_numbering py df = Inr out"
    and "has_columns [''Test Case ID'', ''Step #''] df"
  shows "filter (\<lambda>e. map_of e ''error'' = Some (VStr out_of_order_message)) out
     = concat (map (\<lambda>(tc_id, grp). order_errors (concat (map (\<lambda>(idx, r).
          case to_int_step py (row_get r ''Step #'' (CStr '''')) of
            None \<Rightarrow> []
          | Some s \<Rightarrow> (case excel_row_number py idx of Inl e \<Rightarrow> [] | Inr n \<Rightarrow> [(n, s)])) grp)))
        (groupby ''Test Case ID'' (working_rows py df)))"
proof (cases "working_rows py df = []")
  case True
  with assms have "out = []"
    by (auto simp: check_step_numbering_def Let_def split: if_splits)
  with True show ?thesis by (simp add: groupby_Nil)
next
  case False
  with assms have fe: "for_each (\<lambda>(tc_id, grp). group_errors py tc_id grp)
                 (groupby ''Test Case ID'' (working_rows py df)) = Inr out"
    by (auto simp: check_step_numbering_def Let_def split: if_splits)
  show ?thesis
  proof (rule for_each_filter[OF fe])
    fix x ys
    assume "x \<in> set (groupby ''Test Case ID'' (working_rows py df))"
      and y: "(case x of (tc_id, grp) \<Rightarrow> group_errors py tc_id grp) = Inr ys"
    obtain tc grp where tg: "x = (tc, grp)" by (cases x)
    with y have "group_errors py tc grp = Inr ys" by simp
    from group_errors_out_of_order[OF this] tg
    show "filter (\<lambda>e. map_of e ''error'' = Some (VStr out_of_order_message)) ys
       = (case x of (tc_id, grp) \<Rightarrow> order_errors (concat (map (\<lambda>(idx, r).
          case to_int_step py (row_get r ''Step #'' (CStr '''')) of
            None \<Rightarrow> []
          | Some s \<Rightarrow> (case excel_row_number py idx of Inl e \<Rightarrow> [] | Inr n \<Rightarrow> [(n, s)])) grp)))"
      by simp
  qed
qed

text \<open>
  Claim C5.  Out-of-order detection compares each valid step with the previous valid
  step of the same test case and reports only the first decrease.  On a table with both
  columns, at least one row and numeric index labels, the validator returns, and the
  out-of-order issues of its result are, group by group in the order of
  \<open>groupby\<close>, those of \<open>order_errors\<close> on the valid steps of the group (the rows
  with an integer Step #, in table order, after the blank rows and the rows without a
  Test Case ID are dropped).  \<open>order_errors\<close> gives at most one issue; none when the
  steps never decrease; and at the first decrease exactly one, at the row of the
  smaller step, with the literal text \<open>{tc_id}\<close> in its message.
\<close>

theorem out_of_order_first_decrease_only:
  "(has_columns [''Test Case ID'', ''Step #''] df \<and> df_rows df \<noteq> []
      \<and> (\<forall>p \<in> set (df_rows df). \<exists>n. excel_row_number py (fst p) = Inr n) \<longrightarrow>
      (\<exists>out. check_step_numbering py df = Inr out
         \<and> filter (\<lambda>e. map_of e ''error'' = Some (VStr out_of_order_message)) out
           = concat (map (\<lambda>(tc_id, grp). order_errors (concat (map (\<lambda>(idx, r).
                case to_int_step py (row_get r ''Step #'' (CStr '''')) of
                  None \<Rightarrow> []
                | Some s \<Rightarrow> (case excel_row_number py idx of
                               Inl e \<Rightarrow> [] | Inr n \<Rightarrow> [(n, s)])) grp)))
              (groupby ''Test Case ID'' (working_rows py df)))))
   \<and> length (order_errors sio) \<le> 1
   \<and> (sorted (map snd sio) \<longrightarrow> order_errors sio = [])
   \<and> (0 < i \<and> i < length sio \<and> snd (sio ! i) < snd (sio ! (i - 1))
        \<and> (\<forall>j. 0 < j \<and> j < i \<longrightarrow> snd (sio ! (j - 1)) \<le> snd (sio ! j)) \<longrightarrow>
      order_errors sio =
        [[(''row'', num_val (fst (sio ! i))),
          (''error'', VStr ''Step # is out of order in Test Case ID {tc_id} (expected ascending order)'')]])"
proof (intro conjI impI)
  assume a: "has_columns [''Test Case ID'', ''Step #''] df \<and> df_rows df \<noteq> []
      \<and> (\<forall>p \<in> set (df_rows df). \<exists>n. excel_row_number py (fst p) = Inr n)"
  then have "\<And>p. p \<in> set (df_rows df) \<Longrightarrow> \<exists>n. excel_row_number py (fst p) = Inr n" by blast
  from check_step_numbering_total[OF this] a obtain out
    where out: "check_step_numbering py df = Inr out" by blast
  from check_step_numbering_out_of_order[OF out] a out
  show "\<exists>out. check_step_numbering py df = Inr out
         \<and> filter (\<lambda>e. map_of e ''error'' = Some (VStr out_of_order_message)) out
           = concat (map (\<lambda>(tc_id, grp). order_errors (concat (map (\<lambda>(idx, r).
                case to_int_step py (row_get r ''Step #'' (CStr '''')) of
                  None \<Rightarrow> []
                | Some s \<Rightarrow> (case excel_row_number py idx of
                               Inl e \<Rightarrow> [] | Inr n \<Rightarrow> [(n, s)])) grp)))
              (groupby ''Test Case ID'' (working_rows py df)))" by blast
next
  show "length (order_errors sio) \<le> 1" by (rule order_errors_length)
next
  assume "sorted (map snd sio)"
  then show "order_errors sio = []" by (rule order_errors_sorted)
next
  assume "0 < i \<and> i < length sio \<and> snd (sio ! i) < snd (sio ! (i - 1))
        \<and> (\<forall>j. 0 < j \<and> j < i \<longrightarrow> snd (sio ! (j - 1)) \<le> snd (sio ! j))"
  then have "order_errors sio = [step_error (fst (sio ! i)) out_of_order_message]"
    using order_errors_first_decrease[of i sio] by blast
  then show "order_errors sio =
        [[(''row'', num_val (fst (sio ! i))),
          (''error'', VStr ''Step # is out of order in Test Case ID {tc_id} (expected ascending order)'')]]"
    by (simp add: step_error_def out_of_order_message_def)
qed

theorem out_of_order_first_decrease_only_witness:
  "has_columns [''Test Case ID'', ''Step #''] two_groups_table
   \<and> check_step_numbering sample_py two_groups_table = Inr
       [[(''row'', VInt 4), (''error'', VStr (''Step # is not a number: '' @ [CHR 0x22] @ ''x''
            @ [CHR 0x22] @ '' (Test Case ID: TC1)''))],
        [(''row'', VInt 2), (''error'', VStr ''Duplicate Step # 1 in Test Case ID TC1'')],
        [(''row'', VInt 6), (''error'', VStr ''Duplicate Step # 1 in Test Case ID TC1'')],
        [(''row'', VInt 5), (''error'', VStr out_of_order_message)]]
   \<and> concat (map (\<lambda>(tc_id, grp). order_errors (concat (map (\<lambda>(idx, r).
                case to_int_step sample_py (row_get r ''Step #'' (CStr '''')) of
                  None \<Rightarrow> []
                | Some s \<Rightarrow> (case excel_row_number sample_py idx of
                               Inl e \<Rightarrow> [] | Inr n \<Rightarrow> [(n, s)])) grp)))
              (groupby ''Test Case ID'' (working_rows sample_py two_groups_table)))
       = [[(''row'', VInt 5), (''error'', VStr out_of_order_message)]]
   \<and> order_errors [(NInt 2, 1), (NInt 3, 3), (NInt 5, 2), (NInt 6, 1)]
       = [[(''row'', VInt 5),
           (''error'', VStr ''Step # is out of order in Test Case ID {tc_id} (expected ascending order)'')]]
   \<and> order_errors [(NInt 8, 1), (NInt 9, 2)] = []"
proof -
  let ?sio = "[(NInt 2, 1), (NInt 3, 3), (NInt 5, 2), (NInt 6, 1::int)]"
  have h1: "has_columns [''Test Case ID'', ''Step #''] two_groups_table"
    by (simp add: has_columns_def two_groups_table_def)
  have h2: "df_rows two_groups_table \<noteq> []" by (simp add: two_groups_table_def)
  have h3: "\<forall>p \<in> set (df_rows two_groups_table). \<exists>n. excel_row_number sample_py (fst p) = Inr n"
    by (simp add: two_groups_table_def)
  have w: "working_rows sample_py two_groups_table =
        [(LInt 0, [(''Test Case ID'', CStr ''TC1''), (''Step #'', CStr ''1'')]),
         (LInt 1, [(''Test Case ID'', CStr ''TC1''), (''Step #'', CStr ''3'')]),
         (LInt 2, [(''Test Case ID'', CStr ''TC1''), (''Step #'', CStr ''x'')]),
         (LInt 3, [(''Test Case ID'', CStr ''TC1''), (''Step #'', CStr ''2'')]),
         (LInt 4, [(''Test Case ID'', CStr ''TC1''), (''Step #'', CStr ''1'')]),
         (LInt 6, [(''Test Case ID'', CStr ''TC2''), (''Step #'', CStr ''1'')]),
         (LInt 7, [(''Test Case ID'', CStr ''TC2''), (''Step #'', CStr ''2'')])]"
    by (simp add: working_rows_def two_groups_table_def column_value_def row_eval text_eval
        sample_py_def)
  have g: "groupby ''Test Case ID'' (working_rows sample_py two_groups_table) =
      [(CStr ''TC1'',
        [(LInt 0, [(''Test Case ID'', CStr ''TC1''), (''Step #'', CStr ''1'')]),
         (LInt 1, [(''Test Case ID'', CStr ''TC1''), (''Step #'', CStr ''3'')]),
         (LInt 2, [(''Test Case ID'', CStr ''TC1''), (''Step #'', CStr ''x'')]),
         (LInt 3, [(''Test Case ID'', CStr ''TC1''), (''Step #'', CStr ''2'')]),
         (LInt 4, [(''Test Case ID'', CStr ''TC1''), (''Step #'', CStr ''1'')])]),
       (CStr ''TC2'',
        [(LInt 6, [(''Test Case ID'', CStr ''TC2''), (''Step #'', CStr ''1'')]),
         (LInt 7, [(''Test Case ID'', CStr ''TC2''), (''Step #'', CStr ''2'')])])]"
    unfolding w
    by (simp add: groupby_def column_value_def row_get_def key_eq_def key_less_def sorted_by_def)
  have t: "to_int_step sample_py (CStr ''x'') = None"
    by (simp add: to_int_step_def sample_py_def row_eval text_eval)
  have e: "\<not> is_empty_like sample_py (CStr ''x'')"
    by (simp add: row_eval text_eval)
  have t1: "to_int_step sample_py (CStr ''1'') = Some 1"
    "to_int_step sample_py (CStr ''2'') = Some 2" "to_int_step sample_py (CStr ''3'') = Some 3"
    by (simp_all add: to_int_step_def sample_py_def row_eval text_eval)
  have c: "check_step_numbering sample_py two_groups_table = Inr
       [[(''row'', VInt 4), (''error'', VStr (''Step # is not a number: '' @ [CHR 0x22] @ ''x''
            @ [CHR 0x22] @ '' (Test Case ID: TC1)''))],
        [(''row'', VInt 2), (''error'', VStr ''Duplicate Step # 1 in Test Case ID TC1'')],
        [(''row'', VInt 6), (''error'', VStr ''Duplicate Step # 1 in Test Case ID TC1'')],
        [(''row'', VInt 5), (''error'', VStr out_of_order_message)]]"
    using h1 h2
    by (simp add: check_step_numbering_def iterrows_def g[unfolded w] Let_def w group_errors_def
        step_row_def row_get_def t t1 e strip_def is_space_def duplicate_errors_def
        missing_errors_def step_error_def
        upto.simps[of 1] str_int_def digits.simps)
  have f: "filter (\<lambda>e. map_of e ''error'' = Some (VStr out_of_order_message))
       [[(''row'', VInt 4), (''error'', VStr (''Step # is not a number: '' @ [CHR 0x22] @ ''x''
            @ [CHR 0x22] @ '' (Test Case ID: TC1)''))],
        [(''row'', VInt 2), (''error'', VStr ''Duplicate Step # 1 in Test Case ID TC1'')],
        [(''row'', VInt 6), (''error'', VStr ''Duplicate Step # 1 in Test Case ID TC1'')],
        [(''row'', VInt 5), (''error'', VStr out_of_order_message)]]
      = [[(''row'', VInt 5), (''error'', VStr out_of_order_message)]]"
    by (simp add: out_of_order_message_def)
  have s: "sorted (map snd [(NInt 8, 1), (NInt 9, 2::int)])" by simp
  have d: "0 < (2::nat) \<and> 2 < length ?sio \<and> snd (?sio ! 2) < snd (?sio ! (2 - 1))
        \<and> (\<forall>j. 0 < j \<and> j < 2 \<longrightarrow> snd (?sio ! (j - 1)) \<le> snd (?sio ! j))"
  proof (intro conjI allI impI)
    fix j :: nat assume "0 < j \<and> j < 2"
    then have "j = 1" by simp
    then show "snd (?sio ! (j - 1)) \<le> snd (?sio ! j)" by simp
  qed simp_all
  from out_of_order_first_decrease_only[of two_groups_table sample_py ?sio 2] h1 h2 h3 d
  have a: "filter (\<lambda>e. map_of e ''error'' = Some (VStr out_of_order_message))
             (projr (check_step_numbering sample_py two_groups_table))
           = concat (map (\<lambda>(tc_id, grp). order_errors (concat (map (\<lambda>(idx, r).
                case to_int_step sample_py (row_get r ''Step #'' (CStr '''')) of
                  None \<Rightarrow> []
                | Some s \<Rightarrow> (case excel_row_number sample_py idx of
                               Inl e \<Rightarrow> [] | Inr n \<Rightarrow> [(n, s)])) grp)))
              (groupby ''Test Case ID'' (working_rows sample_py two_groups_table)))"
    and b: "order_errors ?sio = [[(''row'', num_val (fst (?sio ! 2))),
          (''error'', VStr ''Step # is out of order in Test Case ID {tc_id} (expected ascending order)'')]]"
    by auto
  from out_of_order_first_decrease_only[of two_groups_table sample_py "[(NInt 8, 1), (NInt 9, 2)]" 0] s
  have n: "order_errors [(NInt 8, 1), (NInt 9, 2)] = []" by blast
  from a have a': "concat (map (\<lambda>(tc_id, grp). order_errors (concat (map (\<lambda>(idx, r).
                case to_int_step sample_py (row_get r ''Step #'' (CStr '''')) of
                  None \<Rightarrow> []
                | Some s \<Rightarrow> (case excel_row_number sample_py idx of
                               Inl e \<Rightarrow> [] | Inr n \<Rightarrow> [(n, s)])) grp)))
              (groupby ''Test Case ID'' (working_rows sample_py two_groups_table)))
       = [[(''row'', VInt 5), (''error'', VStr out_of_order_message)]]"
    unfolding c sum.sel f by (rule sym)
  from b have b': "order_errors ?sio = [[(''row'', VInt 5),
          (''error'', VStr ''Step # is out of order in Test Case ID {tc_id} (expected ascending order)'')]]"
    by simp
  show ?thesis using h1 c a' b' n by blast
qed

section \<open>The sequence 1, 2, 2, 4\<close>

lemma py_min_ints:
  "py_min [NInt w, NInt x, NInt y, NInt z] = Inr (NInt (min w (min x (min y z))))"
  by (simp add: min_def)

text \<open>
  Claim C4.  For a table with the two columns whose four rows all have Test Case ID
  \<open>TC1\<close> and the Step # values 1, 2, 2, 4 in that order, whatever the other cells hold
  and whatever integers \<open>a\<close>, \<open>b\<close>, \<open>c\<close>, \<open>d\<close> the index labels of the rows are, the
  step-numbering rule emits exactly three issues: a duplicate-step issue for step 2 on
  each of the two rows that carry it, then one missing-step issue naming 3 on the
  smallest row number of the group; there is no out-of-order issue.  With the default
  index (labels 0, 1, 2, 3) the duplicates are on Excel rows 3 and 4 and the missing-step
  issue is on Excel row 2, the first row of the group.
\<close>

theorem step_numbering_1224:
  assumes cols: "has_columns [''Test Case ID'', ''Step #''] df"
    and rows: "df_rows df = [(LInt a, r1), (LInt b, r2), (LInt c, r3), (LInt d, r4)]"
    and ids: "\<forall>p \<in> set (df_rows df). map_of (snd p) ''Test Case ID'' = Some (CStr ''TC1'')"
    and steps: "map (\<lambda>p. map_of (snd p) ''Step #'') (df_rows df)
                  = [Some (CInt 1), Some (CInt 2), Some (CInt 2), Some (CInt 4)]"
  shows "check_step_numbering py df = Inr
     [[(''row'', VInt (b + 2)), (''error'', VStr ''Duplicate Step # 2 in Test Case ID TC1'')],
      [(''row'', VInt (c + 2)), (''error'', VStr ''Duplicate Step # 2 in Test Case ID TC1'')],
      [(''row'', VInt (min (a + 2) (min (b + 2) (min (c + 2) (d + 2))))),
       (''error'', VStr ''Missing Step # in Test Case ID TC1: 3'')]]"
proof -
  let ?w = "[(LInt a, r1), (LInt b, r2), (LInt c, r3), (LInt d, r4)]"
  have it: "iterrows df = ?w" by (simp add: iterrows_def rows)
  from ids rows have id: "map_of r1 ''Test Case ID'' = Some (CStr ''TC1'')"
    "map_of r2 ''Test Case ID'' = Some (CStr ''TC1'')"
    "map_of r3 ''Test Case ID'' = Some (CStr ''TC1'')"
    "map_of r4 ''Test Case ID'' = Some (CStr ''TC1'')" by simp_all
  from steps rows have st: "map_of r1 ''Step #'' = Some (CInt 1)"
    "map_of r2 ''Step #'' = Some (CInt 2)" "map_of r3 ''Step #'' = Some (CInt 2)"
    "map_of r4 ''Step #'' = Some (CInt 4)" by simp_all
  have nb: "\<not> is_blank_row py r1" "\<not> is_blank_row py r2" "\<not> is_blank_row py r3" "\<not> is_blank_row py r4"
    using id by (simp_all add: not_blank_tc)
  have cv: "column_value r1 ''Test Case ID'' = CStr ''TC1''" "column_value r2 ''Test Case ID'' = CStr ''TC1''"
    "column_value r3 ''Test Case ID'' = CStr ''TC1''" "column_value r4 ''Test Case ID'' = CStr ''TC1''"
    using id by (simp_all add: column_value_def row_get_def)
  have w: "working_rows py df = ?w"
    by (simp add: working_rows_def it nb cv tc1_not_empty)
  have g: "groupby ''Test Case ID'' ?w = [(CStr ''TC1'', ?w)]"
    by (simp add: groupby_def cv key_eq_def sorted_by_def)
  have ge: "group_errors py (CStr ''TC1'') ?w = Inr
     [[(''row'', VInt (b + 2)), (''error'', VStr ''Duplicate Step # 2 in Test Case ID TC1'')],
      [(''row'', VInt (c + 2)), (''error'', VStr ''Duplicate Step # 2 in Test Case ID TC1'')],
      [(''row'', VInt (min (a + 2) (min (b + 2) (min (c + 2) (d + 2))))),
       (''error'', VStr ''Missing Step # in Test Case ID TC1: 3'')]]"
    by (simp add: group_errors_def step_row_int st duplicate_errors_def missing_errors_def
        step_error_def Let_def upto.simps[of 1] str_int_def digits.simps py_min_ints
        del: py_min.simps)
  show ?thesis
    using cols by (simp add: check_step_numbering_def it w g ge)
qed

theorem step_numbering_1224_witness:
  "has_columns [''Test Case ID'', ''Step #''] tc1_table
   \<and> map fst (df_rows tc1_table) = [LInt 0, LInt 1, LInt 2, LInt 3]
   \<and> map (\<lambda>p. map_of (snd p) ''Test Case ID'') (df_rows tc1_table)
        = [Some (CStr ''TC1''), Some (CStr ''TC1''), Some (CStr ''TC1''), Some (CStr ''TC1'')]
   \<and> map (\<lambda>p. map_of (snd p) ''Step #'') (df_rows tc1_table)
        = [Some (CInt 1), Some (CInt 2), Some (CInt 2), Some (CInt 4)]
   \<and> check_step_numbering sample_py tc1_table = Inr
     [[(''row'', VInt 3), (''error'', VStr ''Duplicate Step # 2 in Test Case ID TC1'')],
      [(''row'', VInt 4), (''error'', VStr ''Duplicate Step # 2 in Test Case ID TC1'')],
      [(''row'', VInt 2), (''error'', VStr ''Missing Step # in Test Case ID TC1: 3'')]]"
proof -
  have h1: "has_columns [''Test Case ID'', ''Step #''] tc1_table"
    by (simp add: has_columns_def tc1_table_def)
  have h2: "\<forall>p \<in> set (df_rows tc1_table). map_of (snd p) ''Test Case ID'' = Some (CStr ''TC1'')"
    by (simp add: tc1_table_def)
  have h3: "map (\<lambda>p. map_of (snd p) ''Step #'') (df_rows tc1_table)
        = [Some (CInt 1), Some (CInt 2), Some (CInt 2), Some (CInt 4)]"
    by (simp add: tc1_table_def)
  have h0: "df_rows tc1_table = [(LInt 0, snd (df_rows tc1_table ! 0)),
      (LInt 1, snd (df_rows tc1_table ! 1)), (LInt 2, snd (df_rows tc1_table ! 2)),
      (LInt 3, snd (df_rows tc1_table ! 3))]"
    by (simp add: tc1_table_def)
  have h4: "map (\<lambda>p. map_of (snd p) ''Test Case ID'') (df_rows tc1_table)
        = [Some (CStr ''TC1''), Some (CStr ''TC1''), Some (CStr ''TC1''), Some (CStr ''TC1'')]"
    by (simp add: tc1_table_def)
  have h5: "map fst (df_rows tc1_table) = [LInt 0, LInt 1, LInt 2, LInt 3]"
    by (simp add: tc1_table_def)
  show ?thesis
    using h1 h3 h4 h5 step_numbering_1224[OF h1 h0 h2 h3, of sample_py]
    by simp
qed

section \<open>Blank rows\<close>






lemma required_fields_row_total:
  "excel_row_number py idx = Inr n \<Longrightarrow> \<exists>ys. required_fields_row py (idx, r) = Inr ys"
  by (simp add: required_fields_row_def)

lemma data_required_row_total:
  "excel_row_number py idx = Inr n \<Longrightarrow> \<exists>ys. data_required_row py (idx, r) = Inr ys"
  by (simp add: data_required_row_def Let_def)

lemma punctuation_row_total:
  "excel_row_number py idx = Inr n \<Longrightarrow> \<exists>ys. punctuation_row py (idx, r) = Inr ys"
  by (simp add: punctuation_row_def Let_def)

lemma blank_rows_row_total:
  "excel_row_number py idx = Inr n \<Longrightarrow> \<exists>ys. blank_rows_row py (idx, r) = Inr ys"
  by (simp add: blank_rows_row_def)

lemma rows_loop_total:
  assumes "\<And>idx r n. excel_row_number py idx = Inr n \<Longrightarrow> \<exists>ys. f (idx, r) = Inr ys"
    and "\<forall>p \<in> set (df_rows df). \<exists>j. fst p = LInt j"
  shows "\<exists>out. for_each f (iterrows df) = Inr out"
proof (rule for_each_total)
  fix x assume "x \<in> set (iterrows df)"
  with assms(2) obtain j r where "x = (LInt j, r)" by (cases x) (auto simp: iterrows_def)
  with assms(1)[of "LInt j" "NInt (j + 2)" r] show "\<exists>ys. f x = Inr ys" by simp
qed










section \<open>Strict mode\<close>

lemma extract_severity_values:
  "extract_severity e = ''FAIL'' \<or> extract_severity e = ''WARNING'' \<or> extract_severity e = ''INFO''"
  by (cases e) (auto simp: Let_def split: pyval.splits)

lemma extract_severity_promoted:
  "extract_severity (ErrDict (AList.update ''severity'' (VStr ''FAIL'') d)) = ''FAIL''"
  by (simp add: dict_get_def py_or_def update_conv' text_eval)

lemma summarize_issues_counts_aux:
  defines "stp \<equiv> (\<lambda>(fail, warning, info) e.
        let sev = extract_severity e in
        if sev = ''FAIL'' then (fail + 1, warning, info)
        else if sev = ''WARNING'' then (fail, warning + 1, info)
        else (fail, warning, info + 1))"
  shows "foldl stp (f, w, n) errors
   = (f + length (filter (\<lambda>e. extract_severity e = ''FAIL'') errors),
      w + length (filter (\<lambda>e. extract_severity e = ''WARNING'') errors),
      n + length (filter (\<lambda>e. extract_severity e = ''INFO'') errors))"
proof (induction errors arbitrary: f w n)
  case Nil
  show ?case by simp
next
  case (Cons e errors)
  have st: "stp (f, w, n) e =
      (if extract_severity e = ''FAIL'' then (f + 1, w, n)
       else if extract_severity e = ''WARNING'' then (f, w + 1, n)
       else (f, w, n + 1))"
    by (simp add: stp_def Let_def)
  from extract_severity_values[of e] show ?case
    by (auto simp: st Cons.IH)
qed

lemma summarize_issues_counts:
  "summarize_issues errors =
     (length (filter (\<lambda>e. extract_severity e = ''FAIL'') errors),
      length (filter (\<lambda>e. extract_severity e = ''WARNING'') errors),
      length (filter (\<lambda>e. extract_severity e = ''INFO'') errors))"
  by (simp add: summarize_issues_def summarize_issues_counts_aux)

text \<open>One step of the loop, seen from the input entry and the store before the call.\<close>

lemma strict_step_store:
  "strict_step (h, out) e = (h', out') \<Longrightarrow>
     length h \<le> length h' \<and> take (length h) h' = h \<and> length out' = Suc (length out)
     \<and> take (length out) out' = out"
  by (cases e) (auto simp: Let_def split: if_splits)

lemma foldl_strict_step_store:
  "foldl strict_step (h, out) es = (h', out') \<Longrightarrow>
     length h \<le> length h' \<and> take (length h) h' = h \<and> length out' = length out + length es
     \<and> take (length out) out' = out"
proof (induction es arbitrary: h out)
  case Nil
  then show ?case by simp
next
  case (Cons e es)
  obtain h1 out1 where s: "strict_step (h, out) e = (h1, out1)" by (cases "strict_step (h, out) e")
  from Cons.prems s have f: "foldl strict_step (h1, out1) es = (h', out')" by simp
  note a = strict_step_store[OF s] and b = Cons.IH[OF f]
  have "take (length h) h' = take (length h) (take (length h1) h')"
    using a by (simp add: min_def)
  also have "\<dots> = h" using a b by simp
  finally have t1: "take (length h) h' = h" .
  have "take (length out) out' = take (length out) (take (length out1) out')"
    using a by (simp add: min_def)
  also have "\<dots> = out" using a b by simp
  finally have t2: "take (length out) out' = out" .
  from a b t1 t2 show ?case by simp
qed

lemma strict_step_ref:
  "strict_step (h, out) (ERef a) =
     (if extract_severity (ErrDict (h ! a)) = ''WARNING''
      then (h @ [AList.update ''severity'' (VStr ''FAIL'') (h ! a)], out @ [ERef (length h)])
      else (h, out @ [ERef a]))"
  by (simp add: Let_def)

lemma prefix_nth: "take n xs = ys \<Longrightarrow> i < n \<Longrightarrow> i < length ys \<Longrightarrow> xs ! i = ys ! i"
  by (metis nth_take)

lemma strict_mode_pointwise:
  assumes "valid_entries h es" and "foldl strict_step (h, []) es = (h', out)"
  shows "length out = length es \<and> length h \<le> length h' \<and> take (length h) h' = h
     \<and> (\<forall>i < length es.
          case es ! i of
            EStr s \<Rightarrow> out ! i = EStr s
          | ERef a \<Rightarrow>
              (if extract_severity (ErrDict (h ! a)) = ''WARNING''
               then \<exists>b. out ! i = ERef b \<and> length h \<le> b \<and> b < length h'
                      \<and> h' ! b = AList.update ''severity'' (VStr ''FAIL'') (h ! a)
               else out ! i = ERef a))"
  using assms
proof (induction es arbitrary: h' out rule: rev_induct)
  case Nil
  then show ?case by simp
next
  case (snoc e es)
  obtain h1 out1 where r1: "foldl strict_step (h, []) es = (h1, out1)"
    by (cases "foldl strict_step (h, []) es")
  from snoc.prems(1) have v: "valid_entries h es"
    and ve: "case e of EStr s \<Rightarrow> True | ERef a \<Rightarrow> a < length h"
    by (simp_all add: valid_entries_def)
  note ih = snoc.IH[OF v r1]
  from ih have l1: "length out1 = length es" and hl: "length h \<le> length h1"
    and pre: "take (length h) h1 = h" by simp_all
  from snoc.prems(2) r1 have st: "strict_step (h1, out1) e = (h', out)" by simp
  note ss = strict_step_store[OF st]
  have len: "length out = length (es @ [e])" using ss l1 by simp
  have hl': "length h \<le> length h'" using ss hl by simp
  have "take (length h) h' = take (length h) (take (length h1) h')"
    using hl by (simp add: min_def)
  then have pre': "take (length h) h' = h" using ss pre by simp
  have old: "out ! i = out1 ! i" if "i < length es" for i
  proof -
    have "out ! i = take (length out1) out ! i" using that l1 by simp
    then show ?thesis using ss by simp
  qed
  have ext: "h' ! b = h1 ! b" if "b < length h1" for b
    using prefix_nth[of "length h1" h' h1 b] ss that by simp
  have point: "case (es @ [e]) ! i of
            EStr s \<Rightarrow> out ! i = EStr s
          | ERef a \<Rightarrow>
              (if extract_severity (ErrDict (h ! a)) = ''WARNING''
               then \<exists>b. out ! i = ERef b \<and> length h \<le> b \<and> b < length h'
                      \<and> h' ! b = AList.update ''severity'' (VStr ''FAIL'') (h ! a)
               else out ! i = ERef a)" if i: "i < length (es @ [e])" for i
  proof (cases "i < length es")
    case True
    from ih True have p: "case es ! i of
            EStr s \<Rightarrow> out1 ! i = EStr s
          | ERef a \<Rightarrow>
              (if extract_severity (ErrDict (h ! a)) = ''WARNING''
               then \<exists>b. out1 ! i = ERef b \<and> length h \<le> b \<and> b < length h1
                      \<and> h1 ! b = AList.update ''severity'' (VStr ''FAIL'') (h ! a)
               else out1 ! i = ERef a)" by simp
    show ?thesis
    proof (cases "es ! i")
      case (EStr s)
      with p True show ?thesis by (simp add: nth_append old)
    next
      case (ERef a)
      show ?thesis
      proof (cases "extract_severity (ErrDict (h ! a)) = ''WARNING''")
        case w: True
        with p ERef obtain b where b: "out1 ! i = ERef b" "length h \<le> b" "b < length h1"
          "h1 ! b = AList.update ''severity'' (VStr ''FAIL'') (h ! a)" by auto
        from b ss ext[of b] have "out ! i = ERef b \<and> length h \<le> b \<and> b < length h'
            \<and> h' ! b = AList.update ''severity'' (VStr ''FAIL'') (h ! a)"
          using old[OF True] by simp
        with w ERef True show ?thesis by (auto simp: nth_append)
      next
        case False
        with p ERef True show ?thesis by (simp add: nth_append old)
      qed
    qed
  next
    case False
    with i have ie: "i = length es" by simp
    show ?thesis
    proof (cases e)
      case (EStr s)
      with st have "out = out1 @ [EStr s]" by simp
      with EStr ie l1 show ?thesis by (simp add: nth_append)
    next
      case (ERef a)
      with ve have a: "a < length h" by simp
      have ha: "h1 ! a = h ! a" using prefix_nth[OF pre a a] .
      show ?thesis
      proof (cases "extract_severity (ErrDict (h ! a)) = ''WARNING''")
        case True
        with st ERef ha have "h' = h1 @ [AList.update ''severity'' (VStr ''FAIL'') (h ! a)]"
          and "out = out1 @ [ERef (length h1)]"
          by (simp_all add: strict_step_ref)
        with True ERef ie l1 hl show ?thesis by (simp add: nth_append)
      next
        case False
        with st ERef ha have "out = out1 @ [ERef a]" by (simp add: strict_step_ref)
        with False ERef ie l1 show ?thesis by (simp add: nth_append)
      qed
    qed
  qed
  from len hl' pre' point show ?case by blast
qed

lemma promoted_counts:
  assumes "list_all2 (\<lambda>x y. extract_severity x =
             (if extract_severity y = ''WARNING'' then ''FAIL'' else extract_severity y)) xs ys"
  shows "length (filter (\<lambda>e. extract_severity e = ''FAIL'') xs)
           = length (filter (\<lambda>e. extract_severity e = ''FAIL'') ys)
             + length (filter (\<lambda>e. extract_severity e = ''WARNING'') ys)
     \<and> length (filter (\<lambda>e. extract_severity e = ''WARNING'') xs) = 0
     \<and> length (filter (\<lambda>e. extract_severity e = ''INFO'') xs)
           = length (filter (\<lambda>e. extract_severity e = ''INFO'') ys)"
  using assms by (induction rule: list_all2_induct) auto

lemma valid_entries_nth:
  "valid_entries h es \<Longrightarrow> i < length es \<Longrightarrow> es ! i = ERef a \<Longrightarrow> a < length h"
  by (auto simp: valid_entries_def list_all_length split: entry.splits)

lemma strict_mode_entry:
  assumes v: "valid_entries h errors" and r: "apply_strict_mode h errors = (h', strict_errors)"
    and i: "i < length errors"
  shows "extract_severity (deref h' (strict_errors ! i)) \<noteq> ''WARNING''
     \<and> extract_severity (deref h' (strict_errors ! i)) =
          (if extract_severity (deref h (errors ! i)) = ''WARNING'' then ''FAIL''
           else extract_severity (deref h (errors ! i)))
     \<and> (extract_severity (deref h (errors ! i)) = ''WARNING'' \<longrightarrow>
          (\<exists>a b. errors ! i = ERef a \<and> strict_errors ! i = ERef b \<and> length h \<le> b \<and> b < length h'
             \<and> map_of (h' ! b) = (map_of (h ! a))(''severity'' \<mapsto> VStr ''FAIL'')))
     \<and> (extract_severity (deref h (errors ! i)) \<noteq> ''WARNING'' \<longrightarrow>
          strict_errors ! i = errors ! i
          \<and> deref h' (strict_errors ! i) = deref h (errors ! i))"
proof -
  from r have r': "foldl strict_step (h, []) errors = (h', strict_errors)"
    by (simp add: apply_strict_mode_def)
  note p = strict_mode_pointwise[OF v r']
  from p have pre: "take (length h) h' = h" by simp
  from p i have pt: "case errors ! i of
            EStr s \<Rightarrow> strict_errors ! i = EStr s
          | ERef a \<Rightarrow>
              (if extract_severity (ErrDict (h ! a)) = ''WARNING''
               then \<exists>b. strict_errors ! i = ERef b \<and> length h \<le> b \<and> b < length h'
                      \<and> h' ! b = AList.update ''severity'' (VStr ''FAIL'') (h ! a)
               else strict_errors ! i = ERef a)" by simp
  show ?thesis
  proof (cases "errors ! i")
    case (EStr s)
    with pt show ?thesis by simp
  next
    case (ERef a)
    from valid_entries_nth[OF v i ERef] have a: "a < length h" .
    have ha: "h' ! a = h ! a" using prefix_nth[OF pre a a] .
    show ?thesis
    proof (cases "extract_severity (ErrDict (h ! a)) = ''WARNING''")
      case True
      with pt ERef obtain b where b: "strict_errors ! i = ERef b" "length h \<le> b" "b < length h'"
          "h' ! b = AList.update ''severity'' (VStr ''FAIL'') (h ! a)" by auto
      have m: "map_of (h' ! b) = (map_of (h ! a))(''severity'' \<mapsto> VStr ''FAIL'')"
        by (simp add: b update_conv')
      have s: "extract_severity (deref h' (strict_errors ! i)) = ''FAIL''"
        using b extract_severity_promoted[of "h ! a"] by simp
      from True ERef b m s show ?thesis by simp
    next
      case False
      with pt ERef have "strict_errors ! i = ERef a" by simp
      with False ERef ha show ?thesis by simp
    qed
  qed
qed

text \<open>
  Claim C3, as the code has it. For every list of entries whose addresses are allocated,
  strict mode returns a list of the same length and leaves every dictionary of the store as
  it was (the store only grows). No output entry has severity WARNING. An entry that was a
  WARNING is now the address of a fresh dictionary that equals the old one on every key
  but \<open>severity\<close>, which is FAIL. An entry that was FAIL or INFO is returned as it
  is. The INFO count is unchanged, the WARNING count is zero, and the FAIL count is the
  FAIL count of the input plus its WARNING count.
\<close>

theorem strict_mode_promotion:
  assumes v: "valid_entries h errors" and r: "apply_strict_mode h errors = (h', strict_errors)"
  shows "length strict_errors = length errors
     \<and> take (length h) h' = h
     \<and> (\<forall>i < length errors.
          extract_severity (deref h' (strict_errors ! i)) \<noteq> ''WARNING''
          \<and> (extract_severity (deref h (errors ! i)) = ''WARNING'' \<longrightarrow>
               extract_severity (deref h' (strict_errors ! i)) = ''FAIL''
               \<and> (\<exists>a b. errors ! i = ERef a \<and> strict_errors ! i = ERef b
                      \<and> length h \<le> b \<and> b < length h'
                      \<and> map_of (h' ! b) = (map_of (h ! a))(''severity'' \<mapsto> VStr ''FAIL'')))
          \<and> (extract_severity (deref h (errors ! i)) \<noteq> ''WARNING'' \<longrightarrow>
               strict_errors ! i = errors ! i
               \<and> deref h' (strict_errors ! i) = deref h (errors ! i)))
     \<and> summarize_issues (map (deref h') strict_errors) =
         (case summarize_issues (map (deref h) errors) of
            (fail, warning, info) \<Rightarrow> (fail + warning, 0, info))"
proof -
  from r have r': "foldl strict_step (h, []) errors = (h', strict_errors)"
    by (simp add: apply_strict_mode_def)
  note p = strict_mode_pointwise[OF v r']
  from p have len: "length strict_errors = length errors" and pre: "take (length h) h' = h"
    by simp_all
  have la: "list_all2 (\<lambda>x y. extract_severity x =
             (if extract_severity y = ''WARNING'' then ''FAIL'' else extract_severity y))
          (map (deref h') strict_errors) (map (deref h) errors)"
    unfolding list_all2_conv_all_nth
  proof (intro conjI allI impI)
    show "length (map (deref h') strict_errors) = length (map (deref h) errors)"
      by (simp add: len)
  next
    fix i assume "i < length (map (deref h') strict_errors)"
    then have i: "i < length errors" by (simp add: len)
    from strict_mode_entry[OF v r i] i len
    show "extract_severity (map (deref h') strict_errors ! i) =
       (if extract_severity (map (deref h) errors ! i) = ''WARNING'' then ''FAIL''
        else extract_severity (map (deref h) errors ! i))"
      by simp
  qed
  have cnt: "summarize_issues (map (deref h') strict_errors) =
         (case summarize_issues (map (deref h) errors) of
            (fail, warning, info) \<Rightarrow> (fail + warning, 0, info))"
    unfolding summarize_issues_counts
    using promoted_counts[OF la] by simp
  have pt: "\<forall>i < length errors.
          extract_severity (deref h' (strict_errors ! i)) \<noteq> ''WARNING''
          \<and> (extract_severity (deref h (errors ! i)) = ''WARNING'' \<longrightarrow>
               extract_severity (deref h' (strict_errors ! i)) = ''FAIL''
               \<and> (\<exists>a b. errors ! i = ERef a \<and> strict_errors ! i = ERef b
                      \<and> length h \<le> b \<and> b < length h'
                      \<and> map_of (h' ! b) = (map_of (h ! a))(''severity'' \<mapsto> VStr ''FAIL'')))
          \<and> (extract_severity (deref h (errors ! i)) \<noteq> ''WARNING'' \<longrightarrow>
               strict_errors ! i = errors ! i
               \<and> deref h' (strict_errors ! i) = deref h (errors ! i))"
  proof (intro allI impI)
    fix i assume i: "i < length errors"
    from strict_mode_entry[OF v r i]
    show "extract_severity (deref h' (strict_errors ! i)) \<noteq> ''WARNING''
          \<and> (extract_severity (deref h (errors ! i)) = ''WARNING'' \<longrightarrow>
               extract_severity (deref h' (strict_errors ! i)) = ''FAIL''
               \<and> (\<exists>a b. errors ! i = ERef a \<and> strict_errors ! i = ERef b
                      \<and> length h \<le> b \<and> b < length h'
                      \<and> map_of (h' ! b) = (map_of (h ! a))(''severity'' \<mapsto> VStr ''FAIL'')))
          \<and> (extract_severity (deref h (errors ! i)) \<noteq> ''WARNING'' \<longrightarrow>
               strict_errors ! i = errors ! i
               \<and> deref h' (strict_errors ! i) = deref h (errors ! i))"
      by metis
  qed
  from len pre pt cnt show ?thesis by blast
qed

theorem strict_mode_promotion_witness:
  "valid_entries sample_store sample_errors
   \<and> apply_strict_mode sample_store sample_errors =
        (sample_store @ [AList.update ''severity'' (VStr ''FAIL'') (sample_store ! 0)],
         [ERef 2, ERef 1, EStr ''legacy''])
   \<and> take (length sample_store)
        (sample_store @ [AList.update ''severity'' (VStr ''FAIL'') (sample_store ! 0)]) = sample_store
   \<and> summarize_issues (map (deref sample_store) sample_errors) = (2, 1, 0)
   \<and> summarize_issues
        (map (deref (sample_store @ [AList.update ''severity'' (VStr ''FAIL'') (sample_store ! 0)]))
           [ERef 2, ERef 1, EStr ''legacy'']) = (3, 0, 0)"
proof -
  have h1: "valid_entries sample_store sample_errors"
    by (simp add: valid_entries_def sample_store_def sample_errors_def)
  have h2: "apply_strict_mode sample_store sample_errors =
        (sample_store @ [AList.update ''severity'' (VStr ''FAIL'') (sample_store ! 0)],
         [ERef 2, ERef 1, EStr ''legacy''])"
    by (simp add: apply_strict_mode_def sample_store_def sample_errors_def dict_get_def
        py_or_def text_eval Let_def)
  have h3: "summarize_issues (map (deref sample_store) sample_errors) = (2, 1, 0)"
    by (simp add: summarize_issues_def sample_store_def sample_errors_def dict_get_def
        py_or_def text_eval Let_def)
  show ?thesis
    using h1 h2 h3 strict_mode_promotion[OF h1 h2]
    by simp
qed

text \<open>
  Claim C3 as stated says that the FAIL count is unchanged. On a list with one WARNING,
  one FAIL and one text entry the FAIL count is 2 before strict mode and 3 after it.
\<close>

theorem strict_mode_fail_count_changes:
  "fst (summarize_issues (map (deref sample_store) sample_errors)) = 2
   \<and> fst (summarize_issues
        (map (deref (fst (apply_strict_mode sample_store sample_errors)))
           (snd (apply_strict_mode sample_store sample_errors)))) = 3"
proof -
  have h2: "apply_strict_mode sample_store sample_errors =
        (sample_store @ [AList.update ''severity'' (VStr ''FAIL'') (sample_store ! 0)],
         [ERef 2, ERef 1, EStr ''legacy''])"
    by (simp add: apply_strict_mode_def sample_store_def sample_errors_def dict_get_def
        py_or_def text_eval Let_def)
  have h3: "summarize_issues (map (deref sample_store) sample_errors) = (2, 1, 0)"
    by (simp add: summarize_issues_def sample_store_def sample_errors_def dict_get_def
        py_or_def text_eval Let_def)
  have h4: "summarize_issues
        (map (deref (sample_store @ [AList.update ''severity'' (VStr ''FAIL'') (sample_store ! 0)]))
           [ERef 2, ERef 1, EStr ''legacy'']) = (3, 0, 0)"
    by (simp add: summarize_issues_def sample_store_def dict_get_def
        py_or_def text_eval Let_def)
  show ?thesis unfolding h2 fst_conv snd_conv h3 h4 by simp
qed

section \<open>Anchor threshold\<close>

lemma length_build_steps: "length (build_steps py df) = length (df_rows df)"
  by (simp add: build_steps_def iterrows_def)

lemma max_anchor_position: "Max (set (map fst (anchor_step_map c))) = 8"
  by (simp add: anchor_step_map_def)

lemma count_anchor_matches_eq:
  assumes "CORE_ANCHOR_STEP_3_ACTION c \<noteq> []" "CORE_ANCHOR_STEP_4_ACTION c \<noteq> []"
    "CORE_ANCHOR_STEP_5_ACTION c \<noteq> []" "CORE_ANCHOR_STEP_8_ACTION c \<noteq> []"
    and "8 \<le> length steps"
  shows "count_anchor_matches c steps =
     int (length (filter (\<lambda>(n, a). n \<le> length steps \<and> steps_match (step_action (steps ! (n - 1))) a)
            (anchor_step_map c)))"
  using assms by (simp add: count_anchor_matches_def anchor_step_map_def)

lemma count_anchor_matches_le:
  assumes "8 \<le> length steps"
  shows "count_anchor_matches c steps \<le>
     int (length (filter (\<lambda>(n, a). n \<le> length steps \<and> steps_match (step_action (steps ! (n - 1))) a)
            (anchor_step_map c)))"
  using assms by (simp add: count_anchor_matches_def anchor_step_map_def)

text \<open>
  Claim C6, as the code has it. With the threshold set to 2: on every table that has the
  Action and Expected Results columns and at least eight rows (the highest anchor
  position), with the feature enabled and four non-empty anchor texts, if exactly two of
  the four anchor positions match by whitespace-normalised text then the rule returns what
  the template comparison of the leading rows yields; and on every table where exactly one
  anchor position matches the rule returns no issue.
\<close>

theorem anchor_threshold:
  assumes min: "CORE_ANCHOR_MIN_MATCHES c = 2"
  shows "(ENABLE_CORE_STEPS c
          \<and> ''Action'' \<in> set (df_columns df1) \<and> ''Expected Results'' \<in> set (df_columns df1)
          \<and> 8 \<le> length (df_rows df1)
          \<and> CORE_ANCHOR_STEP_3_ACTION c \<noteq> [] \<and> CORE_ANCHOR_STEP_4_ACTION c \<noteq> []
          \<and> CORE_ANCHOR_STEP_5_ACTION c \<noteq> [] \<and> CORE_ANCHOR_STEP_8_ACTION c \<noteq> []
          \<and> length (filter (\<lambda>(n, a). n \<le> length (build_steps py df1)
                       \<and> steps_match (step_action (build_steps py df1 ! (n - 1))) a)
                     (anchor_step_map c)) = 2 \<longrightarrow>
          check_core_steps_enforcement c py df1 = enforce_core_steps c (build_steps py df1))
     \<and> (length (filter (\<lambda>(n, a). n \<le> length (build_steps py df2)
                       \<and> steps_match (step_action (build_steps py df2 ! (n - 1))) a)
                     (anchor_step_map c)) = 1 \<longrightarrow>
          check_core_steps_enforcement c py df2 = [])"
proof (intro conjI impI)
  assume a: "ENABLE_CORE_STEPS c
          \<and> ''Action'' \<in> set (df_columns df1) \<and> ''Expected Results'' \<in> set (df_columns df1)
          \<and> 8 \<le> length (df_rows df1)
          \<and> CORE_ANCHOR_STEP_3_ACTION c \<noteq> [] \<and> CORE_ANCHOR_STEP_4_ACTION c \<noteq> []
          \<and> CORE_ANCHOR_STEP_5_ACTION c \<noteq> [] \<and> CORE_ANCHOR_STEP_8_ACTION c \<noteq> []
          \<and> length (filter (\<lambda>(n, a). n \<le> length (build_steps py df1)
                       \<and> steps_match (step_action (build_steps py df1 ! (n - 1))) a)
                     (anchor_step_map c)) = 2"
  then have len: "8 \<le> length (build_steps py df1)" by (simp add: length_build_steps)
  from a have "count_anchor_matches c (build_steps py df1) = 2"
    using count_anchor_matches_eq[of c "build_steps py df1"] len by simp
  with a len min show "check_core_steps_enforcement c py df1 = enforce_core_steps c (build_steps py df1)"
    unfolding check_core_steps_enforcement_def Let_def max_anchor_position by simp
next
  assume b: "length (filter (\<lambda>(n, a). n \<le> length (build_steps py df2)
                       \<and> steps_match (step_action (build_steps py df2 ! (n - 1))) a)
                     (anchor_step_map c)) = 1"
  show "check_core_steps_enforcement c py df2 = []"
  proof (cases "8 \<le> length (build_steps py df2)")
    case True
    from count_anchor_matches_le[OF True, of c] b
    have "count_anchor_matches c (build_steps py df2) < 2" by simp
    with min show ?thesis
      unfolding check_core_steps_enforcement_def Let_def max_anchor_position by simp
  next
    case False
    then show ?thesis
      unfolding check_core_steps_enforcement_def Let_def max_anchor_position by simp
  qed
qed

lemma short_steps: "build_steps py short_table =
   [\<lparr>step_action = ''Open the application'', step_expected = ''Login page displays.''\<rparr>,
    \<lparr>step_action = ''Insert the card'', step_expected = ''Card is read.''\<rparr>,
    \<lparr>step_action = ''Enter PIN and  hit Enter'', step_expected = ''System Use Notification window displays.''\<rparr>,
    \<lparr>step_action = '' Click OK button'', step_expected = ''CAPRI News feed displays.''\<rparr>,
    \<lparr>step_action = ''Click Close button'', step_expected = ''CAPRI GUI version pop-up displays.''\<rparr>]"
  by (simp add: build_steps_def short_table_def iterrows_def row_get_def enumerate_eq_zip)

lemma one_anchor_steps: "build_steps py one_anchor_table =
   map (\<lambda>a. \<lparr>step_action = a, step_expected = ''Done as described.''\<rparr>)
     [''Step one'', ''Step two'', ''Enter PIN and hit Enter'', ''Step four'', ''Step five'',
      ''Step six'', ''Step seven'', ''Step eight'']"
  by (simp add: build_steps_def one_anchor_table_def iterrows_def row_get_def enumerate_eq_zip)

lemma upt5: "[0..<5] = [0, 1, 2, 3, 4::nat]"
  by code_simp

theorem anchor_threshold_witness:
  "CORE_ANCHOR_MIN_MATCHES cfg = 2 \<and> ENABLE_CORE_STEPS cfg
   \<and> 8 \<le> length (df_rows blank_first_table)
   \<and> length (filter (\<lambda>(n, a). n \<le> length (build_steps sample_py blank_first_table)
                \<and> steps_match (step_action (build_steps sample_py blank_first_table ! (n - 1))) a)
              (anchor_step_map cfg)) = 2
   \<and> check_core_steps_enforcement cfg sample_py blank_first_table
        = enforce_core_steps cfg (build_steps sample_py blank_first_table)
   \<and> length (enforce_core_steps cfg (build_steps sample_py blank_first_table)) = 2
   \<and> length (filter (\<lambda>(n, a). n \<le> length (build_steps sample_py one_anchor_table)
                \<and> steps_match (step_action (build_steps sample_py one_anchor_table ! (n - 1))) a)
              (anchor_step_map cfg)) = 1
   \<and> check_core_steps_enforcement cfg sample_py one_anchor_table = []"
proof -
  have h0: "CORE_ANCHOR_MIN_MATCHES cfg = 2" by (simp add: cfg_def)
  have h1: "ENABLE_CORE_STEPS cfg
          \<and> ''Action'' \<in> set (df_columns blank_first_table)
          \<and> ''Expected Results'' \<in> set (df_columns blank_first_table)
          \<and> 8 \<le> length (df_rows blank_first_table)
          \<and> CORE_ANCHOR_STEP_3_ACTION cfg \<noteq> [] \<and> CORE_ANCHOR_STEP_4_ACTION cfg \<noteq> []
          \<and> CORE_ANCHOR_STEP_5_ACTION cfg \<noteq> [] \<and> CORE_ANCHOR_STEP_8_ACTION cfg \<noteq> []"
    by (simp add: cfg_def blank_first_table_def CORE_STEPS_def)
  have h2: "length (filter (\<lambda>(n, a). n \<le> length (build_steps sample_py blank_first_table)
                \<and> steps_match (step_action (build_steps sample_py blank_first_table ! (n - 1))) a)
              (anchor_step_map cfg)) = 2"
    unfolding bft_steps
    by (simp add: anchor_step_map_def cfg_def CORE_STEPS_def text_eval)
  have h3: "length (filter (\<lambda>(n, a). n \<le> length (build_steps sample_py one_anchor_table)
                \<and> steps_match (step_action (build_steps sample_py one_anchor_table ! (n - 1))) a)
              (anchor_step_map cfg)) = 1"
    unfolding one_anchor_steps
    by (simp add: anchor_step_map_def cfg_def text_eval)
  have h4: "length (enforce_core_steps cfg (build_steps sample_py blank_first_table)) = 2"
    by (simp add: bft_enforce)
  show ?thesis
    using h0 h1 h2 h3 h4 anchor_threshold[OF h0, of blank_first_table sample_py one_anchor_table]
    by simp
qed

text \<open>
  Claim C6 as stated covers every table. On a table of five rows whose third and fourth
  Action match their anchors (and whose fifth does not), exactly two of the four anchor
  positions match under the shipped configuration, yet the rule returns no issue, while
  the template comparison of its rows would report four mismatches: a table shorter than
  the highest anchor position is never enforced.
\<close>

theorem anchor_threshold_short_table:
  "CORE_ANCHOR_MIN_MATCHES cfg = 2 \<and> ENABLE_CORE_STEPS cfg
   \<and> length (df_rows short_table) = 5
   \<and> length (filter (\<lambda>(n, a). n \<le> length (build_steps sample_py short_table)
                \<and> steps_match (step_action (build_steps sample_py short_table ! (n - 1))) a)
              (anchor_step_map cfg)) = 2
   \<and> check_core_steps_enforcement cfg sample_py short_table = []
   \<and> length (enforce_core_steps cfg (build_steps sample_py short_table)) = 4"
proof -
  have h0: "CORE_ANCHOR_MIN_MATCHES cfg = 2" "ENABLE_CORE_STEPS cfg" "length (df_rows short_table) = 5"
    by (simp_all add: cfg_def short_table_def)
  have h2: "length (filter (\<lambda>(n, a). n \<le> length (build_steps sample_py short_table)
                \<and> steps_match (step_action (build_steps sample_py short_table ! (n - 1))) a)
              (anchor_step_map cfg)) = 2"
    unfolding short_steps
    by (simp add: anchor_step_map_def cfg_def text_eval)
  have h3: "check_core_steps_enforcement cfg sample_py short_table = []"
    unfolding check_core_steps_enforcement_def Let_def max_anchor_position
    by (simp add: length_build_steps h0)
  have h4: "length (enforce_core_steps cfg (build_steps sample_py short_table)) = 4"
    unfolding short_steps
    by (simp add: enforce_core_steps_def enforce_step_def cfg_def CORE_STEPS_def Let_def
        text_eval upt5)
  show ?thesis using h0 h2 h3 h4 by simp
qed

section \<open>Shape of the issues of a scan\<close>

lemma missing_columns_shape:
  "e \<in> set (check_missing_columns df) \<Longrightarrow>
     \<exists>m. map_of e ''message'' = Some (VStr m) \<and> m \<noteq> []
       \<and> map_of e ''rule'' = Some (VStr ''MISSING_COLUMNS'')"
  by (auto simp: check_missing_columns_def make_issue_def Let_def split: if_splits)

lemma required_fields_row_shape:
  "required_fields_row py x = Inr ys \<Longrightarrow> e \<in> set ys \<Longrightarrow>
     \<exists>m. map_of e ''message'' = Some (VStr m) \<and> m \<noteq> []
       \<and> map_of e ''rule'' = Some (VStr ''REQUIRED_FIELDS'')"
  by (cases x) (auto simp: required_fields_row_def make_issue_def split: if_splits sum.splits)

lemma blank_rows_row_shape:
  "blank_rows_row py x = Inr ys \<Longrightarrow> e \<in> set ys \<Longrightarrow>
     \<exists>m. map_of e ''message'' = Some (VStr m) \<and> m \<noteq> []
       \<and> map_of e ''rule'' = Some (VStr ''BLANK_ROW'')"
  by (cases x) (auto simp: blank_rows_row_def make_issue_def split: if_splits sum.splits)

lemma data_required_row_shape:
  "data_required_row py x = Inr ys \<Longrightarrow> e \<in> set ys \<Longrightarrow>
     \<exists>m. map_of e ''message'' = Some (VStr m) \<and> m \<noteq> []
       \<and> map_of e ''rule'' = Some (VStr ''DATA_REQUIRED'')"
  by (cases x) (auto simp: data_required_row_def make_issue_def Let_def split: if_splits sum.splits)

lemma punctuation_row_shape:
  "punctuation_row py x = Inr ys \<Longrightarrow> e \<in> set ys \<Longrightarrow>
     \<exists>m. map_of e ''message'' = Some (VStr m) \<and> m \<noteq> []
       \<and> map_of e ''rule'' = Some (VStr ''EXPECTED_RESULTS_PUNCTUATION'')"
  by (cases x) (auto simp: punctuation_row_def make_issue_def Let_def split: if_splits sum.splits)

lemma generic_row_shape:
  "generic_row py x = Inr ys \<Longrightarrow> e \<in> set ys \<Longrightarrow>
     \<exists>m. map_of e ''message'' = Some (VStr m) \<and> m \<noteq> []
       \<and> map_of e ''rule'' = Some (VStr ''GENERIC_EXPECTED_RESULTS'')"
  by (cases x) (auto simp: generic_row_def generic_issue_def short_issue_def make_issue_def Let_def
      split: if_splits sum.splits)

lemma required_fields_shape:
  "check_required_fields py df = Inr out \<Longrightarrow> e \<in> set out \<Longrightarrow>
     \<exists>m. map_of e ''message'' = Some (VStr m) \<and> m \<noteq> []
       \<and> map_of e ''rule'' = Some (VStr ''REQUIRED_FIELDS'')"
  unfolding check_required_fields_def
  by (cases "has_columns [''Action'', ''Expected Results''] df")
     (auto dest!: for_each_mem dest: required_fields_row_shape)

lemma blank_rows_shape:
  "check_blank_rows py df = Inr out \<Longrightarrow> e \<in> set out \<Longrightarrow>
     \<exists>m. map_of e ''message'' = Some (VStr m) \<and> m \<noteq> []
       \<and> map_of e ''rule'' = Some (VStr ''BLANK_ROW'')"
  unfolding check_blank_rows_def
  by (auto dest!: for_each_mem dest: blank_rows_row_shape)

lemma data_required_shape:
  "check_data_required_for_actions py df = Inr out \<Longrightarrow> e \<in> set out \<Longrightarrow>
     \<exists>m. map_of e ''message'' = Some (VStr m) \<and> m \<noteq> []
       \<and> map_of e ''rule'' = Some (VStr ''DATA_REQUIRED'')"
  unfolding check_data_required_for_actions_def
  by (cases "has_columns [''Action'', ''Data''] df")
     (auto dest!: for_each_mem dest: data_required_row_shape)

lemma punctuation_shape:
  "check_expected_results_punctuation py df = Inr out \<Longrightarrow> e \<in> set out \<Longrightarrow>
     \<exists>m. map_of e ''message'' = Some (VStr m) \<and> m \<noteq> []
       \<and> map_of e ''rule'' = Some (VStr ''EXPECTED_RESULTS_PUNCTUATION'')"
  unfolding check_expected_results_punctuation_def
  by (cases "has_columns [''Expected Results''] df")
     (auto dest!: for_each_mem dest: punctuation_row_shape)

lemma generic_shape:
  "check_generic_expected_results py df = Inr out \<Longrightarrow> e \<in> set out \<Longrightarrow>
     \<exists>m. map_of e ''message'' = Some (VStr m) \<and> m \<noteq> []
       \<and> map_of e ''rule'' = Some (VStr ''GENERIC_EXPECTED_RESULTS'')"
  unfolding check_generic_expected_results_def
  by (cases "has_columns [''Expected Results''] df")
     (auto dest!: for_each_mem dest: generic_row_shape)

lemma core_steps_shape:
  "e \<in> set (check_core_steps_enforcement c py df) \<Longrightarrow>
     \<exists>m. map_of e ''message'' = Some (VStr m) \<and> m \<noteq> []
       \<and> map_of e ''rule'' = None \<and> map_of e ''severity'' = Some (VStr ''WARNING'')"
  by (auto simp: check_core_steps_enforcement_def enforce_core_steps_def enforce_step_def
      core_issue_def Let_def split: if_splits)

lemma step_error_shape:
  "m \<noteq> [] \<Longrightarrow> map_of (step_error n m) ''error'' = Some (VStr m)
     \<and> map_of (step_error n m) ''rule'' = None \<and> map_of (step_error n m) ''message'' = None"
  by (simp add: step_error_def)

lemma missing_errors_shape:
  "missing_errors py tc st = Inr out \<Longrightarrow> e \<in> set out \<Longrightarrow>
     \<exists>m. map_of e ''error'' = Some (VStr m) \<and> m \<noteq> []
       \<and> map_of e ''rule'' = None \<and> map_of e ''message'' = None"
  by (auto simp: missing_errors_def step_error_def Let_def split: if_splits sum.splits)

lemma group_errors_shape:
  assumes "group_errors py tc grp = Inr out" and "e \<in> set out"
  shows "\<exists>m. map_of e ''error'' = Some (VStr m) \<and> m \<noteq> []
       \<and> map_of e ''rule'' = None \<and> map_of e ''message'' = None"
proof -
  let ?init = "\<lparr>g_errors = [], steps_in_order = [], step_to_rows = [], group_rows = []\<rparr>"
  from assms(1) obtain st where st: "group_loop py tc ?init grp = Inr st"
    by (auto simp: group_errors_def split: sum.splits)
  from assms st consider
      (a) "e \<in> set (g_errors st)"
    | (b) "e \<in> set (duplicate_errors py tc (step_to_rows st))"
    | (c) "\<exists>m. missing_errors py tc st = Inr m \<and> e \<in> set m"
    | (d) "e \<in> set (order_errors (steps_in_order st))"
    by (auto simp: group_errors_def split: if_splits sum.splits)
  then show ?thesis
  proof cases
    case a
    from group_loop_errors[OF st a] have "\<exists>n m. e = step_error n m \<and> m \<noteq> []" by auto
    then show ?thesis using step_error_shape by blast
  next
    case b
    from duplicate_errors_form[OF b] have "\<exists>n m. e = step_error n m \<and> m \<noteq> []" by auto
    then show ?thesis using step_error_shape by blast
  next
    case c
    then show ?thesis using missing_errors_shape by blast
  next
    case d
    from order_errors_form[OF d] have "\<exists>n m. e = step_error n m \<and> m \<noteq> []"
      by (auto simp: out_of_order_message_def)
    then show ?thesis using step_error_shape by blast
  qed
qed

lemma step_numbering_shape:
  assumes "check_step_numbering py df = Inr out" and "e \<in> set out"
  shows "\<exists>m. map_of e ''error'' = Some (VStr m) \<and> m \<noteq> []
       \<and> map_of e ''rule'' = None \<and> map_of e ''message'' = None"
proof -
  from assms have "for_each (\<lambda>(tc_id, grp). group_errors py tc_id grp)
        (groupby ''Test Case ID'' (working_rows py df)) = Inr out"
    by (auto simp: check_step_numbering_def Let_def split: if_splits)
  from for_each_mem[OF this assms(2)] obtain x ys
    where "(case x of (tc_id, grp) \<Rightarrow> group_errors py tc_id grp) = Inr ys" and e: "e \<in> set ys"
    by blast
  then have "group_errors py (fst x) (snd x) = Inr ys" by (cases x) simp
  from group_errors_shape[OF this e] show ?thesis .
qed

lemma scan_df_errors:
  assumes "scan_df c py df = Inr res" and "e \<in> set (sr_errors res)"
  shows "e \<in> set (check_missing_columns df)
     \<or> (\<exists>out. check_required_fields py df = Inr out \<and> e \<in> set out)
     \<or> (\<exists>out. check_blank_rows py df = Inr out \<and> e \<in> set out)
     \<or> (\<exists>out. check_data_required_for_actions py df = Inr out \<and> e \<in> set out)
     \<or> (\<exists>out. check_expected_results_punctuation py df = Inr out \<and> e \<in> set out)
     \<or> (\<exists>out. check_generic_expected_results py df = Inr out \<and> e \<in> set out)
     \<or> e \<in> set (check_core_steps_enforcement c py df)
     \<or> (\<exists>out. check_step_numbering py df = Inr out \<and> e \<in> set out)"
proof (cases "check_missing_columns df = []")
  case False
  with assms show ?thesis by (auto simp: scan_df_def Let_def)
next
  case True
  with assms obtain rule_errors cond where r: "for_each (\<lambda>rule. rule df) (RULES py) = Inr rule_errors"
    and k: "for_each (\<lambda>(required_columns, rule).
                       if has_columns required_columns df then rule df else Inr [])
                     (CONDITIONAL_RULES py) = Inr cond"
    and e: "e \<in> set rule_errors \<or> e \<in> set (check_core_steps_enforcement c py df) \<or> e \<in> set cond"
    by (auto simp: scan_df_def Let_def split: sum.splits)
  from e consider (1) "e \<in> set rule_errors" | (2) "e \<in> set (check_core_steps_enforcement c py df)"
    | (3) "e \<in> set cond" by blast
  then show ?thesis
  proof cases
    case 1
    from for_each_mem[OF r 1] obtain rule ys where "rule \<in> set (RULES py)"
      and "rule df = Inr ys" and "e \<in> set ys" by blast
    then show ?thesis unfolding RULES_def by auto
  next
    case 2
    then show ?thesis by blast
  next
    case 3
    from for_each_mem[OF k 3] show ?thesis
      unfolding CONDITIONAL_RULES_def by (auto split: if_splits)
  qed
qed

lemma scan_df_total:
  assumes ints: "\<forall>p \<in> set (df_rows df). \<exists>j. fst p = LInt j" and ne: "df_rows df \<noteq> []"
  shows "\<exists>res. scan_df c py df = Inr res"
proof -
  have "\<exists>out. for_each (\<lambda>rule. rule df) (RULES py) = Inr out"
  proof (rule for_each_total)
    fix rule assume "rule \<in> set (RULES py)"
    then consider "rule = (\<lambda>df. Inr (check_missing_columns df))"
      | "rule = check_required_fields py" | "rule = check_blank_rows py"
      | "rule = check_data_required_for_actions py"
      | "rule = check_expected_results_punctuation py"
      | "rule = check_generic_expected_results py"
      unfolding RULES_def by auto
    then show "\<exists>ys. rule df = Inr ys"
    proof cases
      case 1
      then show ?thesis by simp
    next
      case 2
      have "\<exists>a. for_each (required_fields_row py) (iterrows df) = Inr a"
        by (rule rows_loop_total[OF _ ints]) (rule required_fields_row_total)
      with 2 show ?thesis by (simp add: check_required_fields_def)
    next
      case 3
      have "\<exists>a. for_each (blank_rows_row py) (iterrows df) = Inr a"
        by (rule rows_loop_total[OF _ ints]) (rule blank_rows_row_total)
      with 3 show ?thesis by (simp add: check_blank_rows_def)
    next
      case 4
      have "\<exists>a. for_each (data_required_row py) (iterrows df) = Inr a"
        by (rule rows_loop_total[OF _ ints]) (rule data_required_row_total)
      with 4 show ?thesis by (simp add: check_data_required_for_actions_def)
    next
      case 5
      have "\<exists>a. for_each (punctuation_row py) (iterrows df) = Inr a"
        by (rule rows_loop_total[OF _ ints]) (rule punctuation_row_total)
      with 5 show ?thesis by (simp add: check_expected_results_punctuation_def)
    next
      case 6
      have "\<exists>a. for_each (generic_row py) (iterrows df) = Inr a"
        by (rule rows_loop_total[OF _ ints]) (rule generic_row_total)
      with 6 show ?thesis by (simp add: check_generic_expected_results_def)
    qed
  qed
  then obtain rule_errors where r: "for_each (\<lambda>rule. rule df) (RULES py) = Inr rule_errors" ..
  have "\<And>p. p \<in> set (df_rows df) \<Longrightarrow> \<exists>n. excel_row_number py (fst p) = Inr n"
    using ints by fastforce
  from check_step_numbering_total[OF this ne] obtain sn
    where sn: "check_step_numbering py df = Inr sn" by blast
  then have "\<exists>cond. for_each (\<lambda>(required_columns, rule).
                       if has_columns required_columns df then rule df else Inr [])
                     (CONDITIONAL_RULES py) = Inr cond"
    by (simp add: CONDITIONAL_RULES_def)
  then obtain cond where k: "for_each (\<lambda>(required_columns, rule).
                       if has_columns required_columns df then rule df else Inr [])
                     (CONDITIONAL_RULES py) = Inr cond" ..
  show ?thesis by (simp add: scan_df_def Let_def r k)
qed

text \<open>
  Claim C1, as the code has it. Every issue in the result of a scan carries a non-empty
  message text. The issues of the six rules built with \<open>make_issue\<close> carry it under
  \<open>message\<close> together with their rule identifier. A core-steps issue carries it under
  \<open>message\<close>, has severity WARNING and no \<open>rule\<close> key. A step-numbering issue
  carries it under \<open>error\<close> and has neither a \<open>rule\<close> nor a \<open>message\<close> key.
  A scan has a result on every table with at least one row whose index labels are
  integers.
\<close>

theorem scan_issue_shapes:
  "(scan_df c py df = Inr res \<and> e \<in> set (sr_errors res) \<longrightarrow>
     (\<exists>m r. map_of e ''message'' = Some (VStr m) \<and> m \<noteq> []
        \<and> map_of e ''rule'' = Some (VStr r)
        \<and> r \<in> set [''MISSING_COLUMNS'', ''REQUIRED_FIELDS'', ''BLANK_ROW'', ''DATA_REQUIRED'',
                    ''EXPECTED_RESULTS_PUNCTUATION'', ''GENERIC_EXPECTED_RESULTS''])
     \<or> (e \<in> set (check_core_steps_enforcement c py df)
        \<and> (\<exists>m. map_of e ''message'' = Some (VStr m) \<and> m \<noteq> [])
        \<and> map_of e ''rule'' = None \<and> map_of e ''severity'' = Some (VStr ''WARNING''))
     \<or> ((\<exists>out. check_step_numbering py df = Inr out \<and> e \<in> set out)
        \<and> (\<exists>m. map_of e ''error'' = Some (VStr m) \<and> m \<noteq> [])
        \<and> map_of e ''rule'' = None \<and> map_of e ''message'' = None))
   \<and> ((\<forall>p \<in> set (df_rows df). \<exists>j. fst p = LInt j) \<and> df_rows df \<noteq> [] \<longrightarrow>
        (\<exists>res. scan_df c py df = Inr res))"
proof (intro conjI impI)
  let ?ids = "[''MISSING_COLUMNS'', ''REQUIRED_FIELDS'', ''BLANK_ROW'', ''DATA_REQUIRED'',
                    ''EXPECTED_RESULTS_PUNCTUATION'', ''GENERIC_EXPECTED_RESULTS'']"
  let ?A = "\<exists>m r. map_of e ''message'' = Some (VStr m) \<and> m \<noteq> []
        \<and> map_of e ''rule'' = Some (VStr r) \<and> r \<in> set ?ids"
  let ?B = "e \<in> set (check_core_steps_enforcement c py df)
        \<and> (\<exists>m. map_of e ''message'' = Some (VStr m) \<and> m \<noteq> [])
        \<and> map_of e ''rule'' = None \<and> map_of e ''severity'' = Some (VStr ''WARNING'')"
  let ?C = "(\<exists>out. check_step_numbering py df = Inr out \<and> e \<in> set out)
        \<and> (\<exists>m. map_of e ''error'' = Some (VStr m) \<and> m \<noteq> [])
        \<and> map_of e ''rule'' = None \<and> map_of e ''message'' = None"
  have made: "?A" if "\<exists>m. map_of e ''message'' = Some (VStr m) \<and> m \<noteq> []
       \<and> map_of e ''rule'' = Some (VStr r)" and "r \<in> set ?ids" for r
    using that by blast
  assume a: "scan_df c py df = Inr res \<and> e \<in> set (sr_errors res)"
  then have a1: "scan_df c py df = Inr res" and a2: "e \<in> set (sr_errors res)" by simp_all
  from scan_df_errors[OF a1 a2] consider
      (1) "e \<in> set (check_missing_columns df)"
    | (2) out where "check_required_fields py df = Inr out" "e \<in> set out"
    | (3) out where "check_blank_rows py df = Inr out" "e \<in> set out"
    | (4) out where "check_data_required_for_actions py df = Inr out" "e \<in> set out"
    | (5) out where "check_expected_results_punctuation py df = Inr out" "e \<in> set out"
    | (6) out where "check_generic_expected_results py df = Inr out" "e \<in> set out"
    | (7) "e \<in> set (check_core_steps_enforcement c py df)"
    | (8) out where "check_step_numbering py df = Inr out" "e \<in> set out"
    by blast
  then show "?A \<or> ?B \<or> ?C"
  proof cases
    case 1
    have "?A" by (rule made[OF missing_columns_shape[OF 1]]) simp
    then show ?thesis ..
  next
    case 2
    have "?A" by (rule made[OF required_fields_shape[OF 2]]) simp
    then show ?thesis ..
  next
    case 3
    have "?A" by (rule made[OF blank_rows_shape[OF 3]]) simp
    then show ?thesis ..
  next
    case 4
    have "?A" by (rule made[OF data_required_shape[OF 4]]) simp
    then show ?thesis ..
  next
    case 5
    have "?A" by (rule made[OF punctuation_shape[OF 5]]) simp
    then show ?thesis ..
  next
    case 6
    have "?A" by (rule made[OF generic_shape[OF 6]]) simp
    then show ?thesis ..
  next
    case 7
    from core_steps_shape[OF 7] 7 have "?B" by blast
    then show ?thesis by blast
  next
    case 8
    from step_numbering_shape[OF 8] 8 have "?C" by blast
    then show ?thesis by blast
  qed
next
  assume "(\<forall>p \<in> set (df_rows df). \<exists>j. fst p = LInt j) \<and> df_rows df \<noteq> []"
  then show "\<exists>res. scan_df c py df = Inr res" using scan_df_total by blast
qed

lemma no_step_rows:
  "iterrows no_step_table =
     [(LInt 0, [(''Test Case ID'', CStr ''TC1''), (''Step #'', CFloat NaN),
           (''Action'', CStr ''Open the chart''), (''Expected Results'', CStr ''The chart opens.'')])]"
  by (simp add: iterrows_def no_step_table_def)

lemma no_step_columns:
  "df_columns no_step_table = [''Test Case ID'', ''Step #'', ''Action'', ''Expected Results'']"
  by (simp add: no_step_table_def)

lemma no_step_not_blank:
  "\<not> is_blank_row py [(''Test Case ID'', CStr ''TC1''), (''Step #'', CFloat NaN),
           (''Action'', CStr ''Open the chart''), (''Expected Results'', CStr ''The chart opens.'')]"
  by (simp add: is_blank_row_def row_get_def is_empty_like_def EMPTY_LIKE_VALUES_def text_eval)

lemma no_step_rules:
  "check_missing_columns no_step_table = []"
  "check_required_fields py no_step_table = Inr []"
  "check_blank_rows py no_step_table = Inr []"
  "check_data_required_for_actions py no_step_table = Inr []"
  "check_expected_results_punctuation py no_step_table = Inr []"
  "check_generic_expected_results py no_step_table = Inr []"
  "check_core_steps_enforcement cfg py no_step_table = []"
proof -
  show "check_missing_columns no_step_table = []"
    by (simp add: check_missing_columns_def no_step_columns sorted_by_def)
  show "check_required_fields py no_step_table = Inr []"
    by (simp add: check_required_fields_def required_fields_row_def no_step_rows no_step_not_blank
        has_columns_def no_step_columns row_get_def is_empty_like_def EMPTY_LIKE_VALUES_def text_eval)
  show "check_blank_rows py no_step_table = Inr []"
    by (simp add: check_blank_rows_def blank_rows_row_def no_step_rows no_step_not_blank)
  show "check_data_required_for_actions py no_step_table = Inr []"
    by (simp add: check_data_required_for_actions_def has_columns_def no_step_columns)
  show "check_expected_results_punctuation py no_step_table = Inr []"
    by (simp add: check_expected_results_punctuation_def punctuation_row_def no_step_rows
        no_step_not_blank has_columns_def no_step_columns row_get_def is_empty_like_def
        EMPTY_LIKE_VALUES_def text_eval)
  show "check_generic_expected_results py no_step_table = Inr []"
    by (simp add: check_generic_expected_results_def generic_row_def no_step_rows
        no_step_not_blank has_columns_def no_step_columns row_get_def is_empty_like_def
        EMPTY_LIKE_VALUES_def normalize_text_def GENERIC_PHRASES_def text_eval)
  show "check_core_steps_enforcement cfg py no_step_table = []"
    unfolding check_core_steps_enforcement_def Let_def max_anchor_position
    by (simp add: length_build_steps no_step_table_def)
qed

lemma no_step_numbering:
  "check_step_numbering py no_step_table =
     Inr [[(''row'', VInt 2), (''error'', VStr ''Step # is empty (Test Case ID: TC1)'')]]"
  by (simp add: check_step_numbering_def working_rows_def no_step_rows no_step_not_blank
      has_columns_def no_step_columns column_value_def row_get_def is_empty_like_def
      EMPTY_LIKE_VALUES_def text_eval groupby_def key_eq_def sorted_by_def group_errors_def
      step_row_def to_int_step_def step_error_def Let_def)

lemma no_step_length: "length (df_rows no_step_table) = 1"
  by (simp add: no_step_table_def)

lemma no_step_scan:
  "scan_df cfg py no_step_table =
     Inr \<lparr>sr_rows = 1,
          sr_columns = [''Test Case ID'', ''Step #'', ''Action'', ''Expected Results''],
          sr_errors = [[(''row'', VInt 2),
                        (''error'', VStr ''Step # is empty (Test Case ID: TC1)'')]]\<rparr>"
  by (simp add: scan_df_def RULES_def CONDITIONAL_RULES_def no_step_rules no_step_numbering
      has_columns_def no_step_columns Let_def no_step_length)

theorem scan_issue_shapes_witness:
  "scan_df cfg sample_py no_step_table =
     Inr \<lparr>sr_rows = 1,
          sr_columns = [''Test Case ID'', ''Step #'', ''Action'', ''Expected Results''],
          sr_errors = [[(''row'', VInt 2),
                        (''error'', VStr ''Step # is empty (Test Case ID: TC1)'')]]\<rparr>
   \<and> [(''row'', VInt 2), (''error'', VStr ''Step # is empty (Test Case ID: TC1)'')]
      \<in> set (projr (check_step_numbering sample_py no_step_table))
   \<and> map fst (df_rows no_step_table) = [LInt 0]"
proof -
  let ?e = "[(''row'', VInt 2), (''error'', VStr ''Step # is empty (Test Case ID: TC1)'')]"
  let ?res = "\<lparr>sr_rows = 1,
          sr_columns = [''Test Case ID'', ''Step #'', ''Action'', ''Expected Results''],
          sr_errors = [?e]\<rparr>"
  have h: "scan_df cfg sample_py no_step_table = Inr ?res \<and> ?e \<in> set (sr_errors ?res)"
    by (simp add: no_step_scan)
  have n: "map_of ?e ''message'' = None" by simp
  have l: "map fst (df_rows no_step_table) = [LInt 0]" by (simp add: no_step_table_def)
  have t: "(\<forall>p \<in> set (df_rows no_step_table). \<exists>j. fst p = LInt j) \<and> df_rows no_step_table \<noteq> []"
    by (simp add: no_step_table_def)
  from scan_issue_shapes[of cfg sample_py no_step_table ?res ?e] h n t
  have "?e \<in> set (projr (check_step_numbering sample_py no_step_table))" by auto
  with h l show ?thesis by simp
qed

text \<open>
  Claim C1 as stated gives every issue a rule identifier. A table with one row whose
  Step # is empty scans to a single issue, the step-numbering one, which has no \<open>rule\<close>
  key and no \<open>message\<close> key.
\<close>

theorem scan_issue_without_rule:
  "scan_df cfg sample_py no_step_table =
     Inr \<lparr>sr_rows = 1,
          sr_columns = [''Test Case ID'', ''Step #'', ''Action'', ''Expected Results''],
          sr_errors = [[(''row'', VInt 2),
                        (''error'', VStr ''Step # is empty (Test Case ID: TC1)'')]]\<rparr>
   \<and> map_of [(''row'', VInt 2), (''error'', VStr ''Step # is empty (Test Case ID: TC1)'')] ''rule'' = None
   \<and> map_of [(''row'', VInt 2), (''error'', VStr ''Step # is empty (Test Case ID: TC1)'')] ''message'' = None"
  by (simp add: no_step_scan)

section \<open>A table without rows\<close>

lemma scan_df_no_rows:
  assumes "has_columns [''Action'', ''Expected Results'', ''Test Case ID'', ''Step #''] df"
    and "df_rows df = []"
  shows "scan_df c py df = Inl (KeyError ''Test Case ID'')"
proof -
  from assms(1) have m: "check_missing_columns df = []"
    by (simp add: check_missing_columns_def has_columns_def sorted_by_def)
  from assms(1) have h: "has_columns [''Test Case ID'', ''Step #''] df"
    by (simp add: has_columns_def)
  have r: "for_each (\<lambda>rule. rule df) (RULES py) = Inr []"
    using assms(2) m
    by (simp add: RULES_def check_required_fields_def check_blank_rows_def
        check_data_required_for_actions_def check_expected_results_punctuation_def
        check_generic_expected_results_def iterrows_def)
  show ?thesis
    by (simp add: scan_df_def Let_def m r CONDITIONAL_RULES_def h
        check_step_numbering_no_rows[OF h assms(2)])
qed

end
